theory Spec2Isabelle
  imports Main
begin

section \<open>Student record management: store and CSV import/export (srms.py)\<close>

text \<open>
  The embedding follows \<^verbatim>\<open>srms.py\<close>. The store is the list \<^verbatim>\<open>self.students\<close>,
  passed in and returned by every operation that mutates it. Python exceptions are
  values of the type \<open>exn\<close>. Text is a list of characters read as code points below 256.
  The write-back \<^verbatim>\<open>_save\<close> and the console output change no in-memory state
  (\<^verbatim>\<open>_save\<close> catches its own failures) and are left out.

  Python's \<^verbatim>\<open>float\<close> values, the conversion \<^verbatim>\<open>float(text)\<close>, the comparison
  \<^verbatim>\<open>0.0 <= marks <= 100.0\<close> and the rendering \<^verbatim>\<open>str(marks)\<close> belong to the
  language, not to this repository. They are taken as parameters (the record \<open>pylib\<close>
  over a type \<open>'f\<close> of float values), so every theorem holds for whatever these
  built-ins compute.
\<close>

subsection \<open>Text primitives\<close>

definition isspace :: "char \<Rightarrow> bool" where
  \<comment> \<open>the characters \<^verbatim>\<open>str.strip()\<close> removes, among the code points below 256\<close>
  "isspace c = (let n = (of_char c :: nat)
     in (9 \<le> n \<and> n \<le> 13) \<or> (28 \<le> n \<and> n \<le> 32) \<or> n = 133 \<or> n = 160)"

definition strip :: "string \<Rightarrow> string" where
  "strip s = rev (dropWhile isspace (rev (dropWhile isspace s)))"

definition is_decimal :: "char \<Rightarrow> bool" where
  \<comment> \<open>\<^verbatim>\<open>0\<close> to \<^verbatim>\<open>9\<close>\<close>
  "is_decimal c = (let n = (of_char c :: nat) in 48 \<le> n \<and> n \<le> 57)"

definition is_digit_char :: "char \<Rightarrow> bool" where
  \<comment> \<open>\<^verbatim>\<open>str.isdigit\<close> also accepts the superscripts two, three and one (178, 179, 185)\<close>
  "is_digit_char c = (let n = (of_char c :: nat)
     in is_decimal c \<or> n = 178 \<or> n = 179 \<or> n = 185)"

definition isdigit :: "string \<Rightarrow> bool" where
  "isdigit s = (s \<noteq> [] \<and> list_all is_digit_char s)"

datatype exn =
    ValueError string
  | AttributeError
  | TypeError
  | OSError
  | CsvError  \<comment> \<open>\<^verbatim>\<open>_csv.Error: field larger than field limit (131072)\<close>\<close>

definition decimal_value :: "string \<Rightarrow> int" where
  "decimal_value s = foldl (\<lambda>a c. 10 * a + (of_char c - 48)) 0 s"

text \<open>
  Integers are unbounded, but the conversions between integers and decimal text refuse
  more than 4300 digits (\<^verbatim>\<open>sys.get_int_max_str_digits()\<close>, the default of CPython 3.11).
\<close>

definition max_str_digits :: int where
  "max_str_digits = 4300"

function digits_of_nat :: "nat \<Rightarrow> string" where
  "digits_of_nat n =
     (if n < 10 then [char_of (48 + n)]
      else digits_of_nat (n div 10) @ [char_of (48 + n mod 10)])"
  by pat_completeness auto
termination
  by (relation "measure (\<lambda>n. n)") auto

declare digits_of_nat.simps [simp del]

definition decimal_text :: "int \<Rightarrow> string" where
  \<comment> \<open>the decimal digits of an integer, with its sign\<close>
  "decimal_text k =
     (if k < 0 then CHR ''-'' # digits_of_nat (nat (- k)) else digits_of_nat (nat k))"

definition str_int :: "int \<Rightarrow> exn + string" where
  \<comment> \<open>\<^verbatim>\<open>str(n)\<close> for an integer: ValueError when it has more than 4300 digits\<close>
  "str_int k =
     (if max_str_digits < int (length (digits_of_nat (nat \<bar>k\<bar>)))
      then Inl (ValueError (''Exceeds the limit (4300 digits) for integer string conversion;''
                  @ '' use sys.set_int_max_str_digits() to increase the limit''))
      else Inr (decimal_text k))"

definition int_of_digits :: "string \<Rightarrow> exn + int" where
  \<comment> \<open>\<^verbatim>\<open>int(s)\<close> for a string that passed \<^verbatim>\<open>isdigit\<close>. The digits up to the first
      character that is no decimal digit are counted first, and more than 4300 of them
      raise ValueError; then a superscript digit, which is no decimal literal, raises
      ValueError with the text in quotes, cut after 200 characters.\<close>
  "int_of_digits s =
     (let digits = length (takeWhile is_decimal s)
      in if max_str_digits < int digits
         then Inl (ValueError (''Exceeds the limit (4300 digits) for integer string conversion:''
                     @ '' value has '' @ digits_of_nat digits
                     @ '' digits; use sys.set_int_max_str_digits() to increase the limit''))
         else if list_all is_decimal s then Inr (decimal_value s)
         else Inl (ValueError (''invalid literal for int() with base 10: ''
                     @ take 200 ([CHR 0x27] @ s @ [CHR 0x27]))))"

record 'f pylib =
  py_float :: "string \<Rightarrow> 'f option"  \<comment> \<open>\<^verbatim>\<open>float(text)\<close>; None when it raises\<close>
  py_in_range :: "'f \<Rightarrow> bool"  \<comment> \<open>\<^verbatim>\<open>0.0 <= marks <= 100.0\<close>\<close>
  py_str :: "'f \<Rightarrow> string"  \<comment> \<open>\<^verbatim>\<open>str(marks)\<close>, as the csv writer renders a cell\<close>

subsection \<open>Data model\<close>

record 'f student =
  roll_no :: int
  name :: string
  class_name :: string
  marks :: 'f

datatype message =
    FileNotFound  \<comment> \<open>\<^verbatim>\<open>File '...' not found.\<close>\<close>
  | HeadersMissing  \<comment> \<open>\<^verbatim>\<open>CSV must contain headers: ...\<close>\<close>
  | Line nat exn  \<comment> \<open>\<^verbatim>\<open>Line {i}: {e_row}\<close>\<close>
  | ImportFailed exn  \<comment> \<open>\<^verbatim>\<open>Failed to import CSV: {e}\<close>\<close>

record summary =
  read_rows :: nat
  imported :: nat
  skipped_duplicates :: nat
  overwritten :: nat
  reassigned :: nat
  invalid_rows :: nat
  errors :: "message list"

definition summary0 :: summary where
  "summary0 = \<lparr>read_rows = 0, imported = 0, skipped_duplicates = 0, overwritten = 0,
     reassigned = 0, invalid_rows = 0, errors = []\<rparr>"

text \<open>
  What \<^verbatim>\<open>csv.reader\<close> yields for a file: the header line, the rows after it (each a
  list of cells), and the exception, if any, that the reader raises once these rows
  have been yielded (a decoding or csv error further down the file).
\<close>

record csv_table =
  fieldnames :: "string list"  \<comment> \<open>\<^verbatim>\<open>reader.fieldnames or []\<close>\<close>
  data_rows :: "string list list"
  read_failure :: "exn option"

text \<open>
  The file behind \<^verbatim>\<open>csv_path\<close>, as the import meets it. \<^verbatim>\<open>Path(csv_path).exists()\<close>
  answers true or false, or raises the OSError of the underlying \<^verbatim>\<open>stat\<close> when that is
  none of the errors it reads as absence (a file name that is too long, a directory
  that may not be searched).
\<close>

datatype csv_path =
    ExistsFails exn  \<comment> \<open>\<^verbatim>\<open>Path(csv_path).exists()\<close> raises\<close>
  | NoSuchFile  \<comment> \<open>\<^verbatim>\<open>Path(csv_path).exists()\<close> is false\<close>
  | Unreadable exn  \<comment> \<open>\<^verbatim>\<open>open\<close> or reading the header raises\<close>
  | Readable csv_table

text \<open>
  The cells that a csv writer has put into a file, and what the import meets when it is
  given that file. The csv module reads back the cells it wrote, except that the reader
  raises \<^verbatim>\<open>csv.Error\<close> at a cell of more than 131072 characters
  (\<^verbatim>\<open>csv.field_size_limit()\<close>); the rows before that cell are yielded. Text of code points
  below 256 always encodes as UTF-8.
\<close>

record csv_text =
  header_cells :: "string list"
  body_cells :: "string list list"

definition field_size_limit :: int where
  "field_size_limit = 131072"

definition row_fits :: "string list \<Rightarrow> bool" where
  "row_fits cells = list_all (\<lambda>cell. int (length cell) \<le> field_size_limit) cells"

definition csv_open :: "csv_text \<Rightarrow> csv_path" where
  "csv_open f =
     (if \<not> row_fits (header_cells f) then Unreadable CsvError
      else Readable \<lparr>fieldnames = header_cells f,
                     data_rows = takeWhile row_fits (body_cells f),
                     read_failure = (if list_all row_fits (body_cells f) then None
                                     else Some CsvError)\<rparr>)"

text \<open>
  A row of \<^verbatim>\<open>csv.DictReader\<close>: a dictionary from field name to cell, where a cell
  missing at the end of a short row is \<^verbatim>\<open>None\<close> (the inner option) and a field name
  repeated in the header keeps its last column. Cells beyond the header go under the key
  \<^verbatim>\<open>None\<close>, which no lookup of the import reads. Rows without any cell are skipped.
\<close>

type_synonym row_dict = "string \<rightharpoonup> string option"

definition dict_row :: "string list \<Rightarrow> string list \<Rightarrow> row_dict" where
  "dict_row names cells =
     map_of (rev (zip names (map Some cells @ replicate (length names - length cells) None)))"

definition DictReader :: "csv_table \<Rightarrow> row_dict list" where
  "DictReader t = map (dict_row (fieldnames t)) (filter (\<lambda>cells. cells \<noteq> []) (data_rows t))"

definition dict_get :: "row_dict \<Rightarrow> string \<Rightarrow> string option \<Rightarrow> string option" where
  \<comment> \<open>\<^verbatim>\<open>row.get(key, default)\<close>\<close>
  "dict_get row k dflt = (case row k of None \<Rightarrow> dflt | Some cell \<Rightarrow> cell)"

subsection \<open>Core operations of the store\<close>

definition get_student_by_roll :: "'f student list \<Rightarrow> int \<Rightarrow> 'f student option" where
  "get_student_by_roll students k = find (\<lambda>s. roll_no s = k) students"

definition add_student :: "'f student list \<Rightarrow> 'f student \<Rightarrow> bool \<times> 'f student list" where
  "add_student students student =
     (case get_student_by_roll students (roll_no student) of
        Some _ \<Rightarrow> (False, students)
      | None \<Rightarrow> (True, students @ [student]))"

text \<open>
  The keyword arguments of \<^verbatim>\<open>update_student(self, roll_no, **kwargs)\<close>, one constructor
  per attribute of a student, with \<^verbatim>\<open>None\<close> as the inner \<open>None\<close>; \<open>Kw_other\<close> is a
  keyword that names no attribute (\<^verbatim>\<open>hasattr\<close> is false). The keywords \<^verbatim>\<open>self\<close> and
  \<^verbatim>\<open>roll_no\<close> can never reach \<^verbatim>\<open>kwargs\<close>: they name the positional parameters, and
  Python refuses the call with a TypeError (multiple values for the argument) before
  the body runs. The guard of the loop is \<^verbatim>\<open>hasattr(s, k)\<close>, which the special attribute
  \<^verbatim>\<open>__dict__\<close> passes: \<open>Kw_dict\<close> is the keyword \<^verbatim>\<open>__dict__\<close> with a dictionary that
  holds the four fields, and its assignment replaces them all, the roll number
  included. Values have the type of the field they name; the other special attributes
  that \<^verbatim>\<open>hasattr\<close> accepts (such as \<^verbatim>\<open>__class__\<close>) are not modelled.
\<close>

datatype 'f kwarg =
    Kw_self
  | Kw_roll_no "int option"
  | Kw_name "string option"
  | Kw_class_name "string option"
  | Kw_marks "'f option"
  | Kw_dict "'f student option"
  | Kw_other string

fun binds_parameter :: "'f kwarg \<Rightarrow> bool" where
  "binds_parameter Kw_self = True"
| "binds_parameter (Kw_roll_no _) = True"
| "binds_parameter _ = False"

fun setattr_kw :: "'f kwarg \<Rightarrow> 'f student \<Rightarrow> 'f student" where
  \<comment> \<open>\<^verbatim>\<open>if hasattr(s, k) and v is not None: setattr(s, k, v)\<close>\<close>
  "setattr_kw (Kw_name (Some v)) s = s\<lparr>name := v\<rparr>"
| "setattr_kw (Kw_class_name (Some v)) s = s\<lparr>class_name := v\<rparr>"
| "setattr_kw (Kw_marks (Some v)) s = s\<lparr>marks := v\<rparr>"
| "setattr_kw (Kw_roll_no (Some v)) s = s\<lparr>roll_no := v\<rparr>"
| "setattr_kw (Kw_dict (Some d)) s = d"
| "setattr_kw _ s = s"

fun modify_first :: "('a \<Rightarrow> bool) \<Rightarrow> ('a \<Rightarrow> 'a) \<Rightarrow> 'a list \<Rightarrow> 'a list" where
  \<comment> \<open>mutation of the object that \<^verbatim>\<open>get_student_by_roll\<close> returned: the first match\<close>
  "modify_first P f [] = []"
| "modify_first P f (x # xs) = (if P x then f x # xs else x # modify_first P f xs)"

definition update_student ::
  "'f student list \<Rightarrow> int \<Rightarrow> 'f kwarg list \<Rightarrow> (exn + bool) \<times> 'f student list" where
  "update_student students k kwargs =
     (if list_ex binds_parameter kwargs then (Inl TypeError, students)
      else case get_student_by_roll students k of
        None \<Rightarrow> (Inr False, students)
      | Some _ \<Rightarrow>
          (Inr True, modify_first (\<lambda>s. roll_no s = k) (\<lambda>s. fold setattr_kw kwargs s) students))"

definition delete_student :: "'f student list \<Rightarrow> int \<Rightarrow> bool \<times> 'f student list" where
  "delete_student students k =
     (case get_student_by_roll students k of
        None \<Rightarrow> (False, students)
      | Some s \<Rightarrow> (True, remove1 s students))"

definition list_students :: "'f student list \<Rightarrow> 'f student list" where
  "list_students students = sort_key roll_no students"

subsection \<open>CSV export\<close>

definition export_row :: "'f pylib \<Rightarrow> 'f student \<Rightarrow> exn + string list" where
  \<comment> \<open>\<^verbatim>\<open>writer.writerow(asdict(s))\<close>: each field rendered with \<^verbatim>\<open>str\<close>, which raises
      for a roll number of more than 4300 digits before anything of the row is written\<close>
  "export_row L s =
     (case str_int (roll_no s) of
        Inl e \<Rightarrow> Inl e
      | Inr roll_text \<Rightarrow> Inr [roll_text, name s, class_name s, py_str L (marks s)])"

fun export_rows :: "'f pylib \<Rightarrow> 'f student list \<Rightarrow> string list list \<times> exn option" where
  \<comment> \<open>the loop over \<^verbatim>\<open>list_students()\<close>: the rows written, and the exception that ended
      the loop, if any\<close>
  "export_rows L [] = ([], None)"
| "export_rows L (s # rest) =
     (case export_row L s of
        Inl e \<Rightarrow> ([], Some e)
      | Inr row \<Rightarrow> (case export_rows L rest of (rows, r) \<Rightarrow> (row # rows, r)))"

definition export_csv :: "'f pylib \<Rightarrow> bool \<Rightarrow> 'f student list \<Rightarrow> nat \<times> csv_text option" where
  \<comment> \<open>the count returned and the file left behind. The flag says whether the destination
      can be opened and written; if not, the except branch returns zero and there is no
      file. When a row raises, the except branch returns zero as well and the file
      holds the header and the rows before that row.\<close>
  "export_csv L writable students =
     (if \<not> writable then (0, None)
      else (case export_rows L (list_students students) of
              (rows, None) \<Rightarrow>
                (length rows,
                 Some \<lparr>header_cells = [''roll_no'', ''name'', ''class_name'', ''marks''],
                       body_cells = rows\<rparr>)
            | (rows, Some e) \<Rightarrow>
                (0, Some \<lparr>header_cells = [''roll_no'', ''name'', ''class_name'', ''marks''],
                          body_cells = rows\<rparr>)))"

subsection \<open>CSV import\<close>

definition next_free_roll :: "'f student list \<Rightarrow> int" where
  \<comment> \<open>\<^verbatim>\<open>max(...)\<close> runs over the rolls from the left, keeping the larger\<close>
  "next_free_roll students =
     (case students of
        [] \<Rightarrow> 1
      | s # rest \<Rightarrow> fold (\<lambda>x m. if m < roll_no x then roll_no x else m) rest (roll_no s) + 1)"

definition required :: "string list" where
  "required = [''roll_no'', ''name'', ''class_name'', ''marks'']"

definition headers_ok :: "string list \<Rightarrow> bool" where
  \<comment> \<open>negation of the test \<^verbatim>\<open>set(names) != required and not required.issubset(set(names))\<close>\<close>
  "headers_ok names =
     (\<not> (set names \<noteq> set required \<and> \<not> set required \<subseteq> set names))"

definition or_empty :: "string option \<Rightarrow> string" where
  \<comment> \<open>\<^verbatim>\<open>(cell or "")\<close>\<close>
  "or_empty cell = (case cell of None \<Rightarrow> [] | Some s \<Rightarrow> s)"

definition validate_row ::
  "'f pylib \<Rightarrow> bool \<Rightarrow> row_dict \<Rightarrow> exn + (int \<times> string \<times> string \<times> 'f)" where
  \<comment> \<open>the try body up to the lookup of the key; \<^verbatim>\<open>None.strip()\<close> raises AttributeError\<close>
  "validate_row L validate_marks row =
     (case dict_get row ''roll_no'' (Some []) of
        None \<Rightarrow> Inl AttributeError
      | Some roll_cell \<Rightarrow>
     (case dict_get row ''marks'' (Some []) of
        None \<Rightarrow> Inl AttributeError
      | Some marks_cell \<Rightarrow>
     (let roll_no_raw = strip roll_cell;
          name' = strip (or_empty (dict_get row ''name'' None));
          class_name' = strip (or_empty (dict_get row ''class_name'' None));
          marks_raw = strip marks_cell
      in if \<not> isdigit roll_no_raw then Inl (ValueError ''roll_no must be an integer'')
         else (case int_of_digits roll_no_raw of
            Inl e \<Rightarrow> Inl e
          | Inr roll_no' \<Rightarrow>
         (case py_float L marks_raw of
            None \<Rightarrow> Inl (ValueError ''marks must be numeric'')
          | Some marks' \<Rightarrow>
              if validate_marks \<and> \<not> py_in_range L marks'
              then Inl (ValueError ''marks must be between 0 and 100'')
              else if name' = [] then Inl (ValueError ''name cannot be empty'')
              else if class_name' = [] then Inl (ValueError ''class_name cannot be empty'')
              else Inr (roll_no', name', class_name', marks'))))))"

definition resolve_row ::
  "string \<Rightarrow> int \<times> string \<times> string \<times> 'f \<Rightarrow> 'f student list \<times> summary
     \<Rightarrow> exn + 'f student list \<times> summary" where
  \<comment> \<open>the try body from \<^verbatim>\<open>existing = self.get_student_by_roll(roll_no)\<close> on\<close>
  "resolve_row duplicate_policy r st =
     (case (r, st) of ((k, n, c, m), (students, sm)) \<Rightarrow>
       (case get_student_by_roll students k of
          Some existing \<Rightarrow>
            if duplicate_policy = ''skip''
            then Inr (students, sm\<lparr>skipped_duplicates := skipped_duplicates sm + 1\<rparr>)
            else if duplicate_policy = ''overwrite''
            then Inr (modify_first (\<lambda>s. roll_no s = k)
                        (\<lambda>s. s\<lparr>name := n, class_name := c, marks := m\<rparr>) students,
                      sm\<lparr>overwritten := overwritten sm + 1\<rparr>)
            else if duplicate_policy = ''reassign''
            then Inr (students @ [\<lparr>roll_no = next_free_roll students, name = n,
                                    class_name = c, marks = m\<rparr>],
                      sm\<lparr>reassigned := reassigned sm + 1\<rparr>)
            else Inl (ValueError (''Unknown duplicate_policy '' @ [CHR 0x27] @ duplicate_policy
                                    @ [CHR 0x27]))
        | None \<Rightarrow>
            Inr (students @ [\<lparr>roll_no = k, name = n, class_name = c, marks = m\<rparr>],
                 sm\<lparr>imported := imported sm + 1\<rparr>)))"

definition row_body ::
  "'f pylib \<Rightarrow> string \<Rightarrow> bool \<Rightarrow> row_dict \<Rightarrow> 'f student list \<times> summary
     \<Rightarrow> exn + 'f student list \<times> summary" where
  "row_body L duplicate_policy validate_marks row st =
     (case validate_row L validate_marks row of
        Inl e \<Rightarrow> Inl e
      | Inr r \<Rightarrow> resolve_row duplicate_policy r st)"

definition import_row ::
  "'f pylib \<Rightarrow> string \<Rightarrow> bool \<Rightarrow> nat \<Rightarrow> row_dict \<Rightarrow> 'f student list \<times> summary
     \<Rightarrow> 'f student list \<times> summary" where
  \<comment> \<open>one turn of the loop: the count of the row, the try body, and its except clause\<close>
  "import_row L duplicate_policy validate_marks i row st =
     (case st of (students, sm) \<Rightarrow>
       (let st1 = (students, sm\<lparr>read_rows := read_rows sm + 1\<rparr>)
        in case row_body L duplicate_policy validate_marks row st1 of
             Inr st2 \<Rightarrow> st2
           | Inl e_row \<Rightarrow>
               (fst st1, (snd st1)\<lparr>invalid_rows := invalid_rows (snd st1) + 1,
                                   errors := errors (snd st1) @ [Line i e_row]\<rparr>)))"

fun import_rows ::
  "'f pylib \<Rightarrow> string \<Rightarrow> bool \<Rightarrow> nat \<Rightarrow> row_dict list \<Rightarrow> 'f student list \<times> summary
     \<Rightarrow> 'f student list \<times> summary" where
  \<comment> \<open>\<^verbatim>\<open>for i, row in enumerate(reader, start=2)\<close>\<close>
  "import_rows L duplicate_policy validate_marks i [] st = st"
| "import_rows L duplicate_policy validate_marks i (row # rows) st =
     import_rows L duplicate_policy validate_marks (Suc i) rows
       (import_row L duplicate_policy validate_marks i row st)"

datatype 'a result = Returns 'a | Raises exn

definition import_csv ::
  "'f pylib \<Rightarrow> 'f student list \<Rightarrow> csv_path \<Rightarrow> string \<Rightarrow> bool
     \<Rightarrow> 'f student list \<times> summary result" where
  \<comment> \<open>the store after the call and what the call returns. The test of existence stands
      before the \<^verbatim>\<open>try\<close>, so what it raises leaves the function.\<close>
  "import_csv L students path duplicate_policy validate_marks =
     (case path of
        ExistsFails e \<Rightarrow> (students, Raises e)
      | NoSuchFile \<Rightarrow> (students, Returns (summary0\<lparr>errors := [FileNotFound]\<rparr>))
      | Unreadable e \<Rightarrow> (students, Returns (summary0\<lparr>errors := [ImportFailed e]\<rparr>))
      | Readable t \<Rightarrow>
          if \<not> headers_ok (fieldnames t)
          then (students, Returns (summary0\<lparr>errors := [HeadersMissing]\<rparr>))
          else (case import_rows L duplicate_policy validate_marks 2 (DictReader t)
                       (students, summary0) of
                  (students', sm) \<Rightarrow>
                    (case read_failure t of
                       None \<Rightarrow> (students', Returns sm)
                     | Some e \<Rightarrow>
                         (students', Returns (sm\<lparr>errors := errors sm @ [ImportFailed e]\<rparr>)))))"

subsection \<open>Sequences of public operations\<close>

datatype 'f call =
    Add "'f student"
  | Update int "'f kwarg list"
  | Delete int
  | Import csv_path string bool

fun call_op :: "'f pylib \<Rightarrow> 'f call \<Rightarrow> 'f student list \<Rightarrow> 'f student list" where
  \<comment> \<open>the store after one call\<close>
  "call_op L (Add s) students = snd (add_student students s)"
| "call_op L (Update k kwargs) students = snd (update_student students k kwargs)"
| "call_op L (Delete k) students = snd (delete_student students k)"
| "call_op L (Import path policy validate_marks) students =
     fst (import_csv L students path policy validate_marks)"

definition run_calls :: "'f pylib \<Rightarrow> 'f call list \<Rightarrow> 'f student list \<Rightarrow> 'f student list" where
  "run_calls L calls students = fold (call_op L) calls students"

subsection \<open>An instance of the float operations for running examples\<close>

text \<open>
  Floats with an integral value, as integers. \<open>sample_float\<close> reads an unsigned decimal
  literal, with or without a fraction part \<^verbatim>\<open>.0\<close>, and \<open>sample_str\<close> writes
  \<^verbatim>\<open>50.0\<close> for 50. On unsigned literals of a value below \<open>2\<^sup>5\<^sup>3\<close> and on such values
  this is what \<^verbatim>\<open>float\<close> and \<^verbatim>\<open>str\<close> compute; it is no model of them elsewhere (a signed
  literal, an exponent), and stands for them only in the examples below.
\<close>

definition sample_float :: "string \<Rightarrow> int option" where
  "sample_float s =
     (let body = (if 2 < length s \<and> drop (length s - 2) s = ''.0''
                  then take (length s - 2) s else s)
      in if body \<noteq> [] \<and> list_all is_decimal body then Some (decimal_value body) else None)"

definition sample_lib :: "int pylib" where
  "sample_lib = \<lparr>py_float = sample_float,
                 py_in_range = (\<lambda>m. 0 \<le> m \<and> m \<le> 100),
                 py_str = (\<lambda>m. decimal_text m @ ''.0'')\<rparr>"

subsection \<open>Predicates used in the statements\<close>

definition counted :: "summary \<Rightarrow> bool" where
  \<comment> \<open>every row read is in exactly one of the five classes\<close>
  "counted sm \<longleftrightarrow>
     read_rows sm = imported sm + skipped_duplicates sm + overwritten sm + reassigned sm
                    + invalid_rows sm"

definition failing_row :: "'f pylib \<Rightarrow> bool \<Rightarrow> row_dict \<Rightarrow> bool" where
  \<comment> \<open>the per-row failures as the specification lists them: a missing cell, a key that is
      not an integer, a score that is not numeric, a score out of range with validation on,
      an empty name or group\<close>
  "failing_row L validate_marks row \<longleftrightarrow>
     dict_get row ''roll_no'' (Some []) = None
     \<or> dict_get row ''marks'' (Some []) = None
     \<or> (\<exists>cell. dict_get row ''roll_no'' (Some []) = Some cell \<and> \<not> isdigit (strip cell))
     \<or> (\<exists>cell. dict_get row ''marks'' (Some []) = Some cell
            \<and> (py_float L (strip cell) = None
               \<or> (\<exists>m. py_float L (strip cell) = Some m \<and> validate_marks
                      \<and> \<not> py_in_range L m)))
     \<or> strip (or_empty (dict_get row ''name'' None)) = []
     \<or> strip (or_empty (dict_get row ''class_name'' None)) = []"

definition sample_store :: "int student list" where
  "sample_store = [\<lparr>roll_no = 1, name = ''Existing'', class_name = ''X'', marks = 55\<rparr>]"

definition sample_row :: "string list \<Rightarrow> row_dict" where
  "sample_row cells = dict_row [''roll_no'', ''name'', ''class_name'', ''marks''] cells"

definition sample_file :: "string list list \<Rightarrow> csv_path" where
  "sample_file rows =
     Readable \<lparr>fieldnames = [''roll_no'', ''name'', ''class_name'', ''marks''],
               data_rows = rows, read_failure = None\<rparr>"

definition names_ok :: "'f student list \<Rightarrow> bool" where
  \<comment> \<open>every record of the store has a non-empty name and a non-empty class\<close>
  "names_ok students = list_all (\<lambda>s. name s \<noteq> [] \<and> class_name s \<noteq> []) students"

fun kwarg_ok :: "'f kwarg \<Rightarrow> bool" where
  "kwarg_ok (Kw_name (Some v)) = (v \<noteq> [])"
| "kwarg_ok (Kw_class_name (Some v)) = (v \<noteq> [])"
| "kwarg_ok (Kw_dict (Some d)) = (name d \<noteq> [] \<and> class_name d \<noteq> [])"
| "kwarg_ok _ = True"

fun field_kwarg :: "'f kwarg \<Rightarrow> bool" where
  \<comment> \<open>any keyword but \<^verbatim>\<open>__dict__\<close> with a dictionary\<close>
  "field_kwarg (Kw_dict (Some d)) = False"
| "field_kwarg _ = True"

fun field_call :: "'f call \<Rightarrow> bool" where
  \<comment> \<open>a call that does not update through \<^verbatim>\<open>__dict__\<close>\<close>
  "field_call (Update k kwargs) = list_all field_kwarg kwargs"
| "field_call _ = True"

fun call_ok :: "'f call \<Rightarrow> bool" where
  \<comment> \<open>the caller supplies no empty name or class to \<^verbatim>\<open>add_student\<close> and \<^verbatim>\<open>update_student\<close>\<close>
  "call_ok (Add s) = (name s \<noteq> [] \<and> class_name s \<noteq> [])"
| "call_ok (Update k kwargs) = list_all kwarg_ok kwargs"
| "call_ok _ = True"

definition export_then_import ::
  "'f pylib \<Rightarrow> bool \<Rightarrow> 'f student list \<Rightarrow> ('f student list \<times> summary result) option" where
  \<comment> \<open>export the store to a destination that can be written, then import the file left
      behind into an empty store under \<^verbatim>\<open>skip\<close>\<close>
  "export_then_import L validate_marks students =
     (case export_csv L True students of
        (count, Some f) \<Rightarrow> Some (import_csv L [] (csv_open f) ''skip'' validate_marks)
      | (count, None) \<Rightarrow> None)"

definition exported_cells :: "'f pylib \<Rightarrow> 'f student \<Rightarrow> string list" where
  \<comment> \<open>the row of a record in the exported file, when \<^verbatim>\<open>str\<close> of its roll succeeds\<close>
  "exported_cells L s = [decimal_text (roll_no s), name s, class_name s, py_str L (marks s)]"

definition exportable :: "'f pylib \<Rightarrow> bool \<Rightarrow> 'f student \<Rightarrow> bool" where
  \<comment> \<open>a record that the import accepts back from its exported row\<close>
  "exportable L validate_marks s \<longleftrightarrow>
     0 \<le> roll_no s \<and> int (length (digits_of_nat (nat (roll_no s)))) \<le> max_str_digits
     \<and> name s \<noteq> [] \<and> strip (name s) = name s
     \<and> int (length (name s)) \<le> field_size_limit
     \<and> class_name s \<noteq> [] \<and> strip (class_name s) = class_name s
     \<and> int (length (class_name s)) \<le> field_size_limit
     \<and> py_float L (strip (py_str L (marks s))) = Some (marks s)
     \<and> int (length (py_str L (marks s))) \<le> field_size_limit
     \<and> (validate_marks \<longrightarrow> py_in_range L (marks s))"

section \<open>Properties\<close>

subsection \<open>Facts about the store operations\<close>

lemma fold_keep_larger:
  "fold (\<lambda>x m. if m < roll_no x then roll_no x else m) xs a = Max (insert a (roll_no ` set xs))"
proof (induction xs arbitrary: a)
  case Nil
  show ?case by simp
next
  case (Cons x xs)
  have "Max (insert (max a (roll_no x)) (roll_no ` set xs))
      = Max (insert a (insert (roll_no x) (roll_no ` set xs)))"
    by (cases "set xs = {}") (simp_all add: max.assoc)
  moreover have "(if a < roll_no x then roll_no x else a) = max a (roll_no x)"
    by (simp add: max_def)
  ultimately show ?case using Cons.IH by simp
qed

lemma next_free_roll_Max:
  "students \<noteq> [] \<Longrightarrow> next_free_roll students = Max (roll_no ` set students) + 1"
  by (cases students) (simp_all add: next_free_roll_def fold_keep_larger)

lemma next_free_roll_greater:
  "s \<in> set students \<Longrightarrow> roll_no s < next_free_roll students"
proof -
  assume s: "s \<in> set students"
  then have "students \<noteq> []" by auto
  moreover have "roll_no s \<le> Max (roll_no ` set students)" using s by simp
  ultimately show ?thesis by (simp add: next_free_roll_Max)
qed

lemma get_student_by_roll_None:
  "get_student_by_roll students k = None \<longleftrightarrow> k \<notin> roll_no ` set students"
  by (auto simp: get_student_by_roll_def find_None_iff)

lemma get_student_by_roll_Some:
  "get_student_by_roll students k = Some s \<Longrightarrow> s \<in> set students \<and> roll_no s = k"
  by (auto simp: get_student_by_roll_def find_Some_iff)

subsection \<open>The next free roll number\<close>

text \<open>
  C8. \<^verbatim>\<open>next_free_roll\<close> is 1 on the empty store; on any other store it is one more
  than a roll number of the store that no roll number of the store exceeds, computed from
  the store it is given; after adding the rolls 1 and 3 to the empty store it is 4.
\<close>

theorem next_free_roll_spec:
  "next_free_roll ([] :: 'f student list) = 1
   \<and> (students \<noteq> [] \<longrightarrow>
        next_free_roll students - 1 \<in> roll_no ` set students
        \<and> (\<forall>s \<in> set students. roll_no s \<le> next_free_roll students - 1))
   \<and> next_free_roll (run_calls L [Add (a\<lparr>roll_no := 1\<rparr>), Add (b\<lparr>roll_no := 3\<rparr>)] []) = 4"
proof -
  have "next_free_roll ([] :: 'f student list) = 1" by (simp add: next_free_roll_def)
  moreover have "next_free_roll students - 1 \<in> roll_no ` set students
        \<and> (\<forall>s \<in> set students. roll_no s \<le> next_free_roll students - 1)" if "students \<noteq> []"
  proof -
    have "Max (roll_no ` set students) \<in> roll_no ` set students"
      using that by (intro Max_in) simp_all
    then show ?thesis using that by (simp add: next_free_roll_Max)
  qed
  moreover have "next_free_roll (run_calls L [Add (a\<lparr>roll_no := 1\<rparr>), Add (b\<lparr>roll_no := 3\<rparr>)] []) = 4"
    by (simp add: run_calls_def add_student_def get_student_by_roll_def next_free_roll_def)
  ultimately show ?thesis by blast
qed

theorem next_free_roll_spec_witness:
  "[\<lparr>roll_no = 7, name = ''Ann'', class_name = ''10-A'', marks = (50::int)\<rparr>,
    \<lparr>roll_no = 2, name = ''Bob'', class_name = ''10-B'', marks = 60\<rparr>] \<noteq> []
   \<and> next_free_roll [\<lparr>roll_no = 7, name = ''Ann'', class_name = ''10-A'', marks = (50::int)\<rparr>,
        \<lparr>roll_no = 2, name = ''Bob'', class_name = ''10-B'', marks = 60\<rparr>] = 8"
  using next_free_roll_spec [of "[\<lparr>roll_no = 7, name = ''Ann'', class_name = ''10-A'', marks = (50::int)\<rparr>,
    \<lparr>roll_no = 2, name = ''Bob'', class_name = ''10-B'', marks = 60\<rparr>]"]
  by (simp add: next_free_roll_def)

subsection \<open>Facts about one turn of the import loop\<close>

lemma resolve_row_summary:
  assumes "resolve_row pol r (students, sm) = Inr (students', sm')"
  shows "read_rows sm' = read_rows sm \<and> invalid_rows sm' = invalid_rows sm
       \<and> errors sm' = errors sm
       \<and> imported sm' + skipped_duplicates sm' + overwritten sm' + reassigned sm'
         = imported sm + skipped_duplicates sm + overwritten sm + reassigned sm + 1"
  using assms
  by (cases r) (auto simp: resolve_row_def split: option.splits if_splits)

lemma import_row_raise:
  assumes "row_body L pol v row (students, sm\<lparr>read_rows := read_rows sm + 1\<rparr>) = Inl e"
  shows "import_row L pol v i row (students, sm)
       = (students, sm\<lparr>read_rows := read_rows sm + 1, invalid_rows := invalid_rows sm + 1,
                       errors := errors sm @ [Line i e]\<rparr>)"
  using assms by (simp add: import_row_def Let_def)

lemma import_row_return:
  assumes "row_body L pol v row (students, sm\<lparr>read_rows := read_rows sm + 1\<rparr>) = Inr st"
  shows "import_row L pol v i row (students, sm) = st"
  using assms by (simp add: import_row_def Let_def)

lemma import_row_counted:
  assumes "counted sm"
  shows "counted (snd (import_row L pol v i row (students, sm)))"
proof (cases "row_body L pol v row (students, sm\<lparr>read_rows := read_rows sm + 1\<rparr>)")
  case (Inl e)
  then show ?thesis using assms by (simp add: import_row_raise counted_def)
next
  case (Inr st)
  obtain students' sm' where st: "st = (students', sm')" by (cases st)
  from Inr obtain r where
    "resolve_row pol r (students, sm\<lparr>read_rows := read_rows sm + 1\<rparr>) = Inr (students', sm')"
    by (auto simp: row_body_def st split: sum.splits)
  from resolve_row_summary [OF this] show ?thesis
    using assms Inr by (simp add: import_row_return st counted_def)
qed

lemma import_row_read_rows:
  "read_rows (snd (import_row L pol v i row (students, sm))) = read_rows sm + 1"
proof (cases "row_body L pol v row (students, sm\<lparr>read_rows := read_rows sm + 1\<rparr>)")
  case (Inl e)
  then show ?thesis by (simp add: import_row_raise)
next
  case (Inr st)
  obtain students' sm' where st: "st = (students', sm')" by (cases st)
  from Inr obtain r where
    "resolve_row pol r (students, sm\<lparr>read_rows := read_rows sm + 1\<rparr>) = Inr (students', sm')"
    by (auto simp: row_body_def st split: sum.splits)
  from resolve_row_summary [OF this] show ?thesis
    using Inr by (simp add: import_row_return st)
qed

lemma import_row_errors:
  "errors (snd (import_row L pol v i row (students, sm))) = errors sm
   \<or> (\<exists>e. errors (snd (import_row L pol v i row (students, sm))) = errors sm @ [Line i e])"
proof (cases "row_body L pol v row (students, sm\<lparr>read_rows := read_rows sm + 1\<rparr>)")
  case (Inl e)
  then show ?thesis by (simp add: import_row_raise)
next
  case (Inr st)
  obtain students' sm' where st: "st = (students', sm')" by (cases st)
  from Inr obtain r where
    "resolve_row pol r (students, sm\<lparr>read_rows := read_rows sm + 1\<rparr>) = Inr (students', sm')"
    by (auto simp: row_body_def st split: sum.splits)
  from resolve_row_summary [OF this] show ?thesis
    using Inr by (simp add: import_row_return st)
qed

lemma import_rows_counted:
  "counted (snd st) \<Longrightarrow> counted (snd (import_rows L pol v i rows st))"
proof (induction rows arbitrary: i st)
  case Nil
  then show ?case by simp
next
  case (Cons row rows)
  obtain students sm where st: "st = (students, sm)" by (cases st)
  show ?case using Cons.prems
    by (simp add: st Cons.IH import_row_counted)
qed

lemma import_rows_read_rows:
  "read_rows (snd (import_rows L pol v i rows st)) = read_rows (snd st) + length rows"
proof (induction rows arbitrary: i st)
  case Nil
  then show ?case by simp
next
  case (Cons row rows)
  obtain students sm where st: "st = (students, sm)" by (cases st)
  show ?case by (simp add: st Cons.IH import_row_read_rows)
qed

lemma import_rows_errors:
  "m \<in> set (errors (snd (import_rows L pol v i rows st)))
   \<Longrightarrow> m \<in> set (errors (snd st)) \<or> (\<exists>j e. m = Line j e)"
proof (induction rows arbitrary: i st)
  case Nil
  then show ?case by simp
next
  case (Cons row rows)
  obtain students sm where st: "st = (students, sm)" by (cases st)
  from Cons.prems have "m \<in> set (errors (snd (import_row L pol v i row (students, sm))))
      \<or> (\<exists>j e. m = Line j e)"
    using Cons.IH by (simp add: st)
  then show ?case using import_row_errors [of L pol v i row students sm]
    by (auto simp: st)
qed

lemma import_csv_Readable:
  "headers_ok (fieldnames t) \<Longrightarrow>
   import_csv L students (Readable t) pol v =
     (fst (import_rows L pol v 2 (DictReader t) (students, summary0)),
      Returns (case read_failure t of
                 None \<Rightarrow> snd (import_rows L pol v 2 (DictReader t) (students, summary0))
               | Some e \<Rightarrow> (snd (import_rows L pol v 2 (DictReader t) (students, summary0)))
                    \<lparr>errors := errors (snd (import_rows L pol v 2 (DictReader t)
                                              (students, summary0))) @ [ImportFailed e]\<rparr>))"
  by (simp add: import_csv_def split: prod.splits option.splits)

lemma import_csv_not_Readable:
  "\<not> headers_ok (fieldnames t) \<Longrightarrow>
   import_csv L students (Readable t) pol v
     = (students, Returns (summary0\<lparr>errors := [HeadersMissing]\<rparr>))"
  by (simp add: import_csv_def)

subsection \<open>Counters of an import\<close>

lemma import_csv_returns_counted:
  assumes "\<And>e. path \<noteq> ExistsFails e"
  shows "\<exists>sm. snd (import_csv L students path pol v) = Returns sm \<and> counted sm"
proof -
  have zero: "counted summary0" by (simp add: counted_def summary0_def)
  show ?thesis
  proof (cases path)
    case (ExistsFails e)
    with assms [of e] show ?thesis by blast
  next
    case NoSuchFile
    then show ?thesis by (simp add: import_csv_def summary0_def counted_def)
  next
    case (Unreadable e)
    then show ?thesis by (simp add: import_csv_def summary0_def counted_def)
  next
    case (Readable t)
    show ?thesis
    proof (cases "headers_ok (fieldnames t)")
      case False
      then show ?thesis using Readable
        by (simp add: import_csv_not_Readable summary0_def counted_def)
    next
      case True
      have "counted (snd (import_rows L pol v 2 (DictReader t) (students, summary0)))"
        using zero by (intro import_rows_counted) simp
      then show ?thesis using Readable True
        by (cases "read_failure t") (simp_all add: import_csv_Readable counted_def)
    qed
  qed
qed

text \<open>
  C3. In the summary that an import returns, \<^verbatim>\<open>read_rows\<close> is the sum of
  \<^verbatim>\<open>imported\<close>, \<^verbatim>\<open>skipped_duplicates\<close>, \<^verbatim>\<open>overwritten\<close>, \<^verbatim>\<open>reassigned\<close> and
  \<^verbatim>\<open>invalid_rows\<close>; and every import returns a summary once its test of existence has
  answered.
\<close>

theorem import_csv_counts_every_row:
  "(snd (import_csv L students path pol v) = Returns sm
     \<longrightarrow> read_rows sm = imported sm + skipped_duplicates sm + overwritten sm + reassigned sm
                         + invalid_rows sm)
   \<and> ((\<forall>e. path \<noteq> ExistsFails e)
     \<longrightarrow> (\<exists>sm'. snd (import_csv L students path pol v) = Returns sm'))"
proof (intro conjI impI)
  assume r: "snd (import_csv L students path pol v) = Returns sm"
  then have "\<And>e. path \<noteq> ExistsFails e" by (auto simp: import_csv_def)
  from import_csv_returns_counted [OF this, of L students pol v] r
  show "read_rows sm = imported sm + skipped_duplicates sm + overwritten sm + reassigned sm
                         + invalid_rows sm"
    by (auto simp: counted_def)
next
  assume "\<forall>e. path \<noteq> ExistsFails e"
  then have "\<And>e. path \<noteq> ExistsFails e" by simp
  from import_csv_returns_counted [OF this, of L students pol v]
  show "\<exists>sm'. snd (import_csv L students path pol v) = Returns sm'" by blast
qed

theorem import_csv_counts_every_row_witness:
  "(\<forall>e. sample_file [[''1'', ''New'', ''Y'', ''99''], [''2'', '''', ''Z'', ''70''],
                      [''3'', ''Cy'', ''Z'', ''80'']] \<noteq> ExistsFails e)
   \<and> snd (import_csv sample_lib sample_store
        (sample_file [[''1'', ''New'', ''Y'', ''99''], [''2'', '''', ''Z'', ''70''],
                      [''3'', ''Cy'', ''Z'', ''80'']]) ''overwrite'' True)
     = Returns \<lparr>read_rows = 3, imported = 1, skipped_duplicates = 0, overwritten = 1,
                reassigned = 0, invalid_rows = 1,
                errors = [Line 3 (ValueError ''name cannot be empty'')]\<rparr>
   \<and> (3::nat) = 1 + 0 + 1 + 0 + 1"
proof -
  have r: "snd (import_csv sample_lib sample_store
        (sample_file [[''1'', ''New'', ''Y'', ''99''], [''2'', '''', ''Z'', ''70''],
                      [''3'', ''Cy'', ''Z'', ''80'']]) ''overwrite'' True)
     = Returns \<lparr>read_rows = 3, imported = 1, skipped_duplicates = 0, overwritten = 1,
                reassigned = 0, invalid_rows = 1,
                errors = [Line 3 (ValueError ''name cannot be empty'')]\<rparr>"
    by code_simp
  have p: "\<forall>e. sample_file [[''1'', ''New'', ''Y'', ''99''], [''2'', '''', ''Z'', ''70''],
                      [''3'', ''Cy'', ''Z'', ''80'']] \<noteq> ExistsFails e"
    by (simp add: sample_file_def)
  from r p import_csv_counts_every_row [where L = sample_lib and students = sample_store
      and path = "sample_file [[''1'', ''New'', ''Y'', ''99''], [''2'', '''', ''Z'', ''70''],
                      [''3'', ''Cy'', ''Z'', ''80'']]"
      and pol = "''overwrite''" and v = True
      and sm = "\<lparr>read_rows = 3, imported = 1, skipped_duplicates = 0, overwritten = 1,
                reassigned = 0, invalid_rows = 1,
                errors = [Line 3 (ValueError ''name cannot be empty'')]\<rparr>"]
  show ?thesis by simp
qed

subsection \<open>Missing file and header check\<close>

text \<open>
  C5. When the file does not exist, or its header lacks one of the four field names, the
  import returns at once: one message, every counter zero, the store as it was. A header
  that holds the four names, in any order and among others, is accepted: no header
  message, and every data row is read.
\<close>

theorem import_csv_preconditions:
  "((path = NoSuchFile
      \<or> (\<exists>t. path = Readable t
            \<and> \<not> set [''roll_no'', ''name'', ''class_name'', ''marks''] \<subseteq> set (fieldnames t)))
     \<longrightarrow> (\<exists>msg. import_csv L students path pol v
            = (students, Returns \<lparr>read_rows = 0, imported = 0, skipped_duplicates = 0,
                 overwritten = 0, reassigned = 0, invalid_rows = 0, errors = [msg]\<rparr>)))
   \<and> (set [''roll_no'', ''name'', ''class_name'', ''marks''] \<subseteq> set (fieldnames t')
     \<longrightarrow> (\<exists>students' sm. import_csv L students (Readable t') pol v = (students', Returns sm)
            \<and> HeadersMissing \<notin> set (errors sm)
            \<and> read_rows sm = length (filter (\<lambda>cells. cells \<noteq> []) (data_rows t'))))"
proof (intro conjI impI)
  assume "path = NoSuchFile
      \<or> (\<exists>t. path = Readable t
            \<and> \<not> set [''roll_no'', ''name'', ''class_name'', ''marks''] \<subseteq> set (fieldnames t))"
  then show "\<exists>msg. import_csv L students path pol v
            = (students, Returns \<lparr>read_rows = 0, imported = 0, skipped_duplicates = 0,
                 overwritten = 0, reassigned = 0, invalid_rows = 0, errors = [msg]\<rparr>)"
  proof
    assume "path = NoSuchFile"
    then show ?thesis by (simp add: import_csv_def summary0_def)
  next
    assume "\<exists>t. path = Readable t
            \<and> \<not> set [''roll_no'', ''name'', ''class_name'', ''marks''] \<subseteq> set (fieldnames t)"
    then obtain t where "path = Readable t" "\<not> headers_ok (fieldnames t)"
      by (auto simp: headers_ok_def required_def)
    then show ?thesis by (simp add: import_csv_def summary0_def)
  qed
next
  assume sub: "set [''roll_no'', ''name'', ''class_name'', ''marks''] \<subseteq> set (fieldnames t')"
  then have ok: "headers_ok (fieldnames t')" by (simp add: headers_ok_def required_def)
  have rr: "read_rows (snd (import_rows L pol v 2 (DictReader t') (students, summary0)))
            = length (filter (\<lambda>cells. cells \<noteq> []) (data_rows t'))"
    by (simp add: import_rows_read_rows summary0_def DictReader_def)
  have "HeadersMissing \<in> set (errors (snd (import_rows L pol v 2 (DictReader t')
          (students, summary0)))) \<Longrightarrow> False"
    by (drule import_rows_errors) (auto simp: summary0_def)
  then have hm: "HeadersMissing \<notin> set (errors (snd (import_rows L pol v 2 (DictReader t')
          (students, summary0))))" by blast
  show "\<exists>students' sm. import_csv L students (Readable t') pol v = (students', Returns sm)
            \<and> HeadersMissing \<notin> set (errors sm)
            \<and> read_rows sm = length (filter (\<lambda>cells. cells \<noteq> []) (data_rows t'))"
    using rr hm
    by (cases "read_failure t'") (simp_all add: import_csv_Readable [OF ok])
qed


theorem import_csv_preconditions_witness:
  "\<not> set [''roll_no'', ''name'', ''class_name'', ''marks'']
        \<subseteq> set (fieldnames \<lparr>fieldnames = [''roll_no'', ''name'', ''marks''],
                 data_rows = [[''2'', ''New'', ''70'']], read_failure = None\<rparr>)
   \<and> (\<exists>msg. import_csv sample_lib
          [\<lparr>roll_no = 1, name = ''Existing'', class_name = ''X'', marks = 55\<rparr>]
          (Readable \<lparr>fieldnames = [''roll_no'', ''name'', ''marks''],
                     data_rows = [[''2'', ''New'', ''70'']], read_failure = None\<rparr>) ''skip'' True
        = ([\<lparr>roll_no = 1, name = ''Existing'', class_name = ''X'', marks = 55\<rparr>],
           Returns \<lparr>read_rows = 0, imported = 0, skipped_duplicates = 0, overwritten = 0,
                    reassigned = 0, invalid_rows = 0, errors = [msg]\<rparr>))
   \<and> set [''roll_no'', ''name'', ''class_name'', ''marks'']
        \<subseteq> set (fieldnames \<lparr>fieldnames = [''marks'', ''extra'', ''name'', ''roll_no'', ''class_name''],
                   data_rows = [[''70'', ''x'', ''New'', ''2'', ''Y'']], read_failure = None\<rparr>)
   \<and> (\<exists>students' sm. import_csv sample_lib
          [\<lparr>roll_no = 1, name = ''Existing'', class_name = ''X'', marks = 55\<rparr>]
          (Readable \<lparr>fieldnames = [''marks'', ''extra'', ''name'', ''roll_no'', ''class_name''],
                     data_rows = [[''70'', ''x'', ''New'', ''2'', ''Y'']], read_failure = None\<rparr>)
          ''skip'' True = (students', Returns sm)
        \<and> HeadersMissing \<notin> set (errors sm) \<and> read_rows sm = 1)"
  using import_csv_preconditions [where
      path = "Readable \<lparr>fieldnames = [''roll_no'', ''name'', ''marks''],
                 data_rows = [[''2'', ''New'', ''70'']], read_failure = None\<rparr>"
      and t' = "\<lparr>fieldnames = [''marks'', ''extra'', ''name'', ''roll_no'', ''class_name''],
                   data_rows = [[''70'', ''x'', ''New'', ''2'', ''Y'']], read_failure = None\<rparr>"
      and L = sample_lib
      and students = "[\<lparr>roll_no = 1, name = ''Existing'', class_name = ''X'', marks = 55\<rparr>]"
      and pol = "''skip''" and v = True]
  by simp

subsection \<open>Facts about the resolution of a valid row\<close>

lemma modify_first_split:
  "find P xs = Some e \<Longrightarrow>
   \<exists>pre post. xs = pre @ e # post \<and> (\<forall>x \<in> set pre. \<not> P x)
     \<and> modify_first P f xs = pre @ f e # post"
proof (induction xs)
  case Nil
  then show ?case by simp
next
  case (Cons x xs)
  show ?case
  proof (cases "P x")
    case True
    with Cons.prems have "x = e" by simp
    with True show ?thesis by (intro exI [of _ "[]"] exI [of _ xs]) simp
  next
    case False
    with Cons.prems have "find P xs = Some e" by simp
    from Cons.IH [OF this] obtain pre post where
      "xs = pre @ e # post" "\<forall>x \<in> set pre. \<not> P x" "modify_first P f xs = pre @ f e # post"
      by blast
    with False show ?thesis by (intro exI [of _ "x # pre"] exI [of _ post]) simp
  qed
qed

lemma find_Some_append:
  "find P xs = Some e \<Longrightarrow> find P (xs @ ys) = Some e"
  by (induction xs) (auto split: if_splits)

lemma row_body_valid:
  "validate_row L v row = Inr r \<Longrightarrow> row_body L pol v row st = resolve_row pol r st"
  by (simp add: row_body_def)

lemma row_body_invalid:
  "validate_row L v row = Inl e \<Longrightarrow> row_body L pol v row st = Inl e"
  by (simp add: row_body_def)

lemma resolve_row_skip:
  "get_student_by_roll students k = Some e \<Longrightarrow>
   resolve_row ''skip'' (k, n, c, m) (students, sm)
     = Inr (students, sm\<lparr>skipped_duplicates := skipped_duplicates sm + 1\<rparr>)"
  by (simp add: resolve_row_def)

lemma resolve_row_overwrite:
  "get_student_by_roll students k = Some e \<Longrightarrow>
   resolve_row ''overwrite'' (k, n, c, m) (students, sm)
     = Inr (modify_first (\<lambda>s. roll_no s = k)
              (\<lambda>s. s\<lparr>name := n, class_name := c, marks := m\<rparr>) students,
            sm\<lparr>overwritten := overwritten sm + 1\<rparr>)"
  by (simp add: resolve_row_def)

lemma resolve_row_reassign:
  "get_student_by_roll students k = Some e \<Longrightarrow>
   resolve_row ''reassign'' (k, n, c, m) (students, sm)
     = Inr (students @ [\<lparr>roll_no = next_free_roll students, name = n, class_name = c,
                          marks = m\<rparr>],
            sm\<lparr>reassigned := reassigned sm + 1\<rparr>)"
  by (simp add: resolve_row_def)

lemma resolve_row_unknown:
  "get_student_by_roll students k = Some e \<Longrightarrow>
   pol \<noteq> ''skip'' \<Longrightarrow> pol \<noteq> ''overwrite'' \<Longrightarrow> pol \<noteq> ''reassign'' \<Longrightarrow>
   resolve_row pol (k, n, c, m) (students, sm)
     = Inl (ValueError (''Unknown duplicate_policy '' @ [CHR 0x27] @ pol @ [CHR 0x27]))"
  by (simp add: resolve_row_def)

lemma resolve_row_new:
  "get_student_by_roll students k = None \<Longrightarrow>
   resolve_row pol (k, n, c, m) (students, sm)
     = Inr (students @ [\<lparr>roll_no = k, name = n, class_name = c, marks = m\<rparr>],
            sm\<lparr>imported := imported sm + 1\<rparr>)"
  by (simp add: resolve_row_def)

lemma import_row_skip_appends:
  "\<exists>new. fst (import_row L ''skip'' v i row (students, sm)) = students @ new"
proof (cases "validate_row L v row")
  case (Inl e)
  then show ?thesis by (simp add: import_row_raise row_body_invalid)
next
  case (Inr r)
  obtain k n c m where r: "r = (k, n, c, m)" by (cases r)
  show ?thesis
  proof (cases "get_student_by_roll students k")
    case None
    then show ?thesis
      by (simp add: import_row_def row_body_valid [OF Inr] r resolve_row_new)
  next
    case (Some e)
    then show ?thesis
      by (simp add: import_row_def row_body_valid [OF Inr] r resolve_row_skip)
  qed
qed

lemma import_rows_skip_appends:
  "\<exists>new. fst (import_rows L ''skip'' v i rows (students, sm)) = students @ new"
proof (induction rows arbitrary: i students sm)
  case Nil
  then show ?case by simp
next
  case (Cons row rows)
  obtain students1 sm1 where st1: "import_row L ''skip'' v i row (students, sm) = (students1, sm1)"
    by (cases "import_row L ''skip'' v i row (students, sm)")
  from import_row_skip_appends [of L v i row students sm] obtain new1 where
    "students1 = students @ new1" by (auto simp: st1)
  moreover from Cons.IH [of "Suc i" students1 sm1] obtain new2 where
    "fst (import_rows L ''skip'' v (Suc i) rows (students1, sm1)) = students1 @ new2" by blast
  ultimately show ?case by (simp add: st1)
qed

subsection \<open>Overwrite and skip\<close>

text \<open>
  C7. A valid row whose roll number is in the store: under \<^verbatim>\<open>overwrite\<close> the first
  record with that roll keeps its roll and takes the row's name, class and marks, every
  other record and the length of the store stay as they were, and \<^verbatim>\<open>overwritten\<close>
  grows by one; under \<^verbatim>\<open>skip\<close> the store is unchanged and \<^verbatim>\<open>skipped_duplicates\<close>
  grows by one. A whole import under \<^verbatim>\<open>skip\<close> only appends to the store.
\<close>

theorem import_overwrite_and_skip:
  "(validate_row L v row = Inr (k, n, c, m) \<and> get_student_by_roll students k = Some e
     \<longrightarrow> roll_no e = k
       \<and> (\<exists>pre post. students = pre @ e # post \<and> (\<forall>s \<in> set pre. roll_no s \<noteq> k)
            \<and> import_row L ''overwrite'' v i row (students, sm)
              = (pre @ e\<lparr>name := n, class_name := c, marks := m\<rparr> # post,
                 sm\<lparr>read_rows := read_rows sm + 1, overwritten := overwritten sm + 1\<rparr>))
       \<and> import_row L ''skip'' v i row (students, sm)
           = (students, sm\<lparr>read_rows := read_rows sm + 1,
                           skipped_duplicates := skipped_duplicates sm + 1\<rparr>))
   \<and> (\<exists>new. fst (import_csv L students path ''skip'' v) = students @ new)"
proof (intro conjI impI)
  assume a: "validate_row L v row = Inr (k, n, c, m) \<and> get_student_by_roll students k = Some e"
  then have valid: "validate_row L v row = Inr (k, n, c, m)"
    and found: "get_student_by_roll students k = Some e" by simp_all
  from found show "roll_no e = k" by (simp add: get_student_by_roll_Some)
  from found have "find (\<lambda>s. roll_no s = k) students = Some e"
    by (simp add: get_student_by_roll_def)
  from modify_first_split [OF this, of "\<lambda>s. s\<lparr>name := n, class_name := c, marks := m\<rparr>"]
  obtain pre post where split: "students = pre @ e # post" "\<forall>s \<in> set pre. roll_no s \<noteq> k"
    "modify_first (\<lambda>s. roll_no s = k) (\<lambda>s. s\<lparr>name := n, class_name := c, marks := m\<rparr>) students
       = pre @ e\<lparr>name := n, class_name := c, marks := m\<rparr> # post"
    by blast
  have "import_row L ''overwrite'' v i row (students, sm)
      = (pre @ e\<lparr>name := n, class_name := c, marks := m\<rparr> # post,
         sm\<lparr>read_rows := read_rows sm + 1, overwritten := overwritten sm + 1\<rparr>)"
    using split(3)
    by (simp add: import_row_def row_body_valid [OF valid] resolve_row_overwrite [OF found])
  with split(1,2) show "\<exists>pre post. students = pre @ e # post \<and> (\<forall>s \<in> set pre. roll_no s \<noteq> k)
            \<and> import_row L ''overwrite'' v i row (students, sm)
              = (pre @ e\<lparr>name := n, class_name := c, marks := m\<rparr> # post,
                 sm\<lparr>read_rows := read_rows sm + 1, overwritten := overwritten sm + 1\<rparr>)"
    by blast
  show "import_row L ''skip'' v i row (students, sm)
           = (students, sm\<lparr>read_rows := read_rows sm + 1,
                           skipped_duplicates := skipped_duplicates sm + 1\<rparr>)"
    by (simp add: import_row_def row_body_valid [OF valid] resolve_row_skip [OF found])
next
  show "\<exists>new. fst (import_csv L students path ''skip'' v) = students @ new"
  proof (cases path)
    case (ExistsFails x)
    then show ?thesis by (simp add: import_csv_def)
  next
    case NoSuchFile
    then show ?thesis by (simp add: import_csv_def)
  next
    case (Unreadable x)
    then show ?thesis by (simp add: import_csv_def)
  next
    case (Readable t)
    then show ?thesis
      using import_rows_skip_appends [of L v 2 "DictReader t" students summary0]
      by (cases "headers_ok (fieldnames t)")
         (simp_all add: import_csv_Readable import_csv_not_Readable)
  qed
qed

theorem import_overwrite_and_skip_witness:
  "validate_row sample_lib True (sample_row [''1'', ''New'', ''Y'', ''99''])
     = Inr (1, ''New'', ''Y'', 99)
   \<and> get_student_by_roll sample_store 1
     = Some \<lparr>roll_no = 1, name = ''Existing'', class_name = ''X'', marks = 55\<rparr>
   \<and> import_row sample_lib ''skip'' True 2 (sample_row [''1'', ''New'', ''Y'', ''99''])
        (sample_store, summary0)
     = (sample_store, summary0\<lparr>read_rows := 1, skipped_duplicates := 1\<rparr>)
   \<and> (\<exists>pre post. sample_store
          = pre @ \<lparr>roll_no = 1, name = ''Existing'', class_name = ''X'', marks = 55\<rparr> # post
        \<and> import_row sample_lib ''overwrite'' True 2 (sample_row [''1'', ''New'', ''Y'', ''99''])
            (sample_store, summary0)
          = (pre @ \<lparr>roll_no = 1, name = ''New'', class_name = ''Y'', marks = 99\<rparr> # post,
             summary0\<lparr>read_rows := 1, overwritten := 1\<rparr>))"
proof -
  have valid: "validate_row sample_lib True (sample_row [''1'', ''New'', ''Y'', ''99''])
     = Inr (1, ''New'', ''Y'', 99)"
    by code_simp
  have found: "get_student_by_roll sample_store 1
     = Some \<lparr>roll_no = 1, name = ''Existing'', class_name = ''X'', marks = 55\<rparr>"
    by code_simp
  show ?thesis
    using valid found
      import_overwrite_and_skip [where L = sample_lib and v = True
        and row = "sample_row [''1'', ''New'', ''Y'', ''99'']" and k = 1 and n = "''New''"
        and c = "''Y''" and m = 99 and students = sample_store and i = 2 and sm = summary0
        and e = "\<lparr>roll_no = 1, name = ''Existing'', class_name = ''X'', marks = 55\<rparr>"]
    by (simp add: summary0_def) blast
qed

subsection \<open>Reassign\<close>

text \<open>
  C6. A valid row whose roll number is in the store, under \<^verbatim>\<open>reassign\<close>: the store is
  kept as it was and one record is appended with the row's name, class and marks; its
  roll is greater than every roll of the store before the row. Two such rows in a row get
  two different new rolls, the second the greater.
\<close>

theorem import_reassign:
  "validate_row L v row = Inr (k, n, c, m) \<and> get_student_by_roll students k = Some e
   \<longrightarrow> import_row L ''reassign'' v i row (students, sm)
         = (students @ [\<lparr>roll_no = next_free_roll students, name = n, class_name = c,
                          marks = m\<rparr>],
            sm\<lparr>read_rows := read_rows sm + 1, reassigned := reassigned sm + 1\<rparr>)
       \<and> (\<forall>s \<in> set students. roll_no s < next_free_roll students)
       \<and> (validate_row L v row2 = Inr (k2, n2, c2, m2)
            \<and> get_student_by_roll students k2 = Some e2
          \<longrightarrow> (\<exists>k' k''. fst (import_rows L ''reassign'' v i [row, row2] (students, sm))
                 = students @ [\<lparr>roll_no = k', name = n, class_name = c, marks = m\<rparr>,
                               \<lparr>roll_no = k'', name = n2, class_name = c2, marks = m2\<rparr>]
                \<and> k' < k'' \<and> (\<forall>s \<in> set students. roll_no s < k')))"
proof (intro impI conjI)
  assume a: "validate_row L v row = Inr (k, n, c, m) \<and> get_student_by_roll students k = Some e"
  then have valid: "validate_row L v row = Inr (k, n, c, m)"
    and found: "get_student_by_roll students k = Some e" by simp_all
  let ?new = "\<lparr>roll_no = next_free_roll students, name = n, class_name = c, marks = m\<rparr>"
  show step: "import_row L ''reassign'' v i row (students, sm)
         = (students @ [?new],
            sm\<lparr>read_rows := read_rows sm + 1, reassigned := reassigned sm + 1\<rparr>)"
    by (simp add: import_row_def row_body_valid [OF valid] resolve_row_reassign [OF found])
  show greater: "\<forall>s \<in> set students. roll_no s < next_free_roll students"
    by (simp add: next_free_roll_greater)
  assume b: "validate_row L v row2 = Inr (k2, n2, c2, m2)
            \<and> get_student_by_roll students k2 = Some e2"
  then have valid2: "validate_row L v row2 = Inr (k2, n2, c2, m2)"
    and found2: "get_student_by_roll students k2 = Some e2" by simp_all
  from found2 have found2': "get_student_by_roll (students @ [?new]) k2 = Some e2"
    by (simp add: get_student_by_roll_def find_Some_append)
  have "import_row L ''reassign'' v (Suc i) row2 (students @ [?new],
            sm\<lparr>read_rows := read_rows sm + 1, reassigned := reassigned sm + 1\<rparr>)
      = ((students @ [?new]) @ [\<lparr>roll_no = next_free_roll (students @ [?new]), name = n2,
            class_name = c2, marks = m2\<rparr>],
         sm\<lparr>read_rows := read_rows sm + 1 + 1, reassigned := reassigned sm + 1 + 1\<rparr>)"
    by (simp add: import_row_def row_body_valid [OF valid2] resolve_row_reassign [OF found2'])
  then have "fst (import_rows L ''reassign'' v i [row, row2] (students, sm))
      = students @ [?new, \<lparr>roll_no = next_free_roll (students @ [?new]), name = n2,
            class_name = c2, marks = m2\<rparr>]"
    by (simp add: step)
  moreover have "next_free_roll students < next_free_roll (students @ [?new])"
    using next_free_roll_greater [of ?new "students @ [?new]"] by simp
  ultimately show "\<exists>k' k''. fst (import_rows L ''reassign'' v i [row, row2] (students, sm))
                 = students @ [\<lparr>roll_no = k', name = n, class_name = c, marks = m\<rparr>,
                               \<lparr>roll_no = k'', name = n2, class_name = c2, marks = m2\<rparr>]
                \<and> k' < k'' \<and> (\<forall>s \<in> set students. roll_no s < k')"
    using greater by blast
qed

theorem import_reassign_witness:
  "validate_row sample_lib True (sample_row [''1'', ''Ann'', ''Y'', ''70''])
     = Inr (1, ''Ann'', ''Y'', 70)
   \<and> validate_row sample_lib True (sample_row [''1'', ''Bob'', ''Z'', ''80''])
     = Inr (1, ''Bob'', ''Z'', 80)
   \<and> get_student_by_roll sample_store 1
     = Some \<lparr>roll_no = 1, name = ''Existing'', class_name = ''X'', marks = 55\<rparr>
   \<and> next_free_roll sample_store = 2
   \<and> import_row sample_lib ''reassign'' True 2 (sample_row [''1'', ''Ann'', ''Y'', ''70''])
        (sample_store, summary0)
     = (sample_store @ [\<lparr>roll_no = next_free_roll sample_store, name = ''Ann'',
                          class_name = ''Y'', marks = 70\<rparr>],
        summary0\<lparr>read_rows := read_rows summary0 + 1,
                  reassigned := reassigned summary0 + 1\<rparr>)
   \<and> (\<exists>k' k''. fst (import_rows sample_lib ''reassign'' True 2
          [sample_row [''1'', ''Ann'', ''Y'', ''70''], sample_row [''1'', ''Bob'', ''Z'', ''80'']]
          (sample_store, summary0))
        = sample_store @ [\<lparr>roll_no = k', name = ''Ann'', class_name = ''Y'', marks = 70\<rparr>,
                          \<lparr>roll_no = k'', name = ''Bob'', class_name = ''Z'', marks = 80\<rparr>]
        \<and> k' < k'' \<and> (\<forall>s \<in> set sample_store. roll_no s < k'))"
proof -
  have valid: "validate_row sample_lib True (sample_row [''1'', ''Ann'', ''Y'', ''70''])
     = Inr (1, ''Ann'', ''Y'', 70)"
    by code_simp
  have valid2: "validate_row sample_lib True (sample_row [''1'', ''Bob'', ''Z'', ''80''])
     = Inr (1, ''Bob'', ''Z'', 80)"
    by code_simp
  have found: "get_student_by_roll sample_store 1
     = Some \<lparr>roll_no = 1, name = ''Existing'', class_name = ''X'', marks = 55\<rparr>"
    by code_simp
  have nxt: "next_free_roll sample_store = 2"
    by code_simp
  show ?thesis
    using valid valid2 found nxt
      import_reassign [where L = sample_lib and v = True
        and row = "sample_row [''1'', ''Ann'', ''Y'', ''70'']" and k = 1 and n = "''Ann''"
        and c = "''Y''" and m = 70 and students = sample_store and i = 2 and sm = summary0
        and e = "\<lparr>roll_no = 1, name = ''Existing'', class_name = ''X'', marks = 55\<rparr>"
        and ?row2.0 = "sample_row [''1'', ''Bob'', ''Z'', ''80'']" and ?k2.0 = 1
        and ?n2.0 = "''Bob''" and ?c2.0 = "''Z''" and ?m2.0 = 80
        and ?e2.0 = "\<lparr>roll_no = 1, name = ''Existing'', class_name = ''X'', marks = 55\<rparr>"]
    by blast
qed

subsection \<open>Unknown duplicate policy\<close>

text \<open>
  C1, as the code has it. A valid row whose roll number is in the store, under a policy
  other than \<^verbatim>\<open>skip\<close>, \<^verbatim>\<open>overwrite\<close> and \<^verbatim>\<open>reassign\<close>: the row is counted as
  invalid, its line-numbered message is appended, the store stays as the earlier rows
  left it, and the loop goes on with the rows that follow.
\<close>

theorem import_unknown_policy:
  "validate_row L v row = Inr (k, n, c, m) \<Longrightarrow> get_student_by_roll students k = Some e \<Longrightarrow>
   pol \<noteq> ''skip'' \<Longrightarrow> pol \<noteq> ''overwrite'' \<Longrightarrow> pol \<noteq> ''reassign'' \<Longrightarrow>
   import_rows L pol v i (row # rows) (students, sm)
     = import_rows L pol v (Suc i) rows
         (students,
          sm\<lparr>read_rows := read_rows sm + 1, invalid_rows := invalid_rows sm + 1,
             errors := errors sm
               @ [Line i (ValueError (''Unknown duplicate_policy '' @ [CHR 0x27] @ pol
                                       @ [CHR 0x27]))]\<rparr>)"
  by (simp add: import_row_def row_body_valid resolve_row_unknown)

theorem import_unknown_policy_witness:
  "validate_row sample_lib True (sample_row [''1'', ''A'', ''Y'', ''50''])
     = Inr (1, ''A'', ''Y'', 50)
   \<and> get_student_by_roll sample_store 1
     = Some \<lparr>roll_no = 1, name = ''Existing'', class_name = ''X'', marks = 55\<rparr>
   \<and> ''bogus'' \<noteq> ''skip'' \<and> ''bogus'' \<noteq> ''overwrite'' \<and> ''bogus'' \<noteq> ''reassign''
   \<and> import_rows sample_lib ''bogus'' True 2
        [sample_row [''1'', ''A'', ''Y'', ''50''], sample_row [''2'', ''C'', ''Z'', ''70'']]
        (sample_store, summary0)
     = import_rows sample_lib ''bogus'' True 3 [sample_row [''2'', ''C'', ''Z'', ''70'']]
         (sample_store,
          summary0\<lparr>read_rows := 1, invalid_rows := 1,
             errors := [Line 2 (ValueError (''Unknown duplicate_policy '' @ [CHR 0x27]
                                             @ ''bogus'' @ [CHR 0x27]))]\<rparr>)"
proof -
  have valid: "validate_row sample_lib True (sample_row [''1'', ''A'', ''Y'', ''50''])
     = Inr (1, ''A'', ''Y'', 50)"
    by code_simp
  have found: "get_student_by_roll sample_store 1
     = Some \<lparr>roll_no = 1, name = ''Existing'', class_name = ''X'', marks = 55\<rparr>"
    by code_simp
  have pol: "''bogus'' \<noteq> ''skip''" "''bogus'' \<noteq> ''overwrite''" "''bogus'' \<noteq> ''reassign''"
    by simp_all
  show ?thesis
    using valid found pol
      import_unknown_policy [OF valid found pol, of 2 "[sample_row [''2'', ''C'', ''Z'', ''70'']]"
        summary0]
    by (simp add: summary0_def numeral_3_eq_3 numeral_2_eq_2)
qed

text \<open>
  C1 as stated fails. An import under the policy \<^verbatim>\<open>bogus\<close> into a store holding roll 1: both rows with
  roll 1 are reported, and the row after them is still imported.
\<close>

theorem import_unknown_policy_counterexample:
  "import_csv sample_lib sample_store
      (sample_file [[''1'', ''A'', ''Y'', ''50''], [''1'', ''B'', ''Y'', ''60''],
                    [''2'', ''C'', ''Z'', ''70'']]) ''bogus'' True
   = ([\<lparr>roll_no = 1, name = ''Existing'', class_name = ''X'', marks = 55\<rparr>,
       \<lparr>roll_no = 2, name = ''C'', class_name = ''Z'', marks = 70\<rparr>],
      Returns \<lparr>read_rows = 3, imported = 1, skipped_duplicates = 0, overwritten = 0,
               reassigned = 0, invalid_rows = 2,
               errors = [Line 2 (ValueError (''Unknown duplicate_policy '' @ [CHR 0x27]
                                              @ ''bogus'' @ [CHR 0x27])),
                         Line 3 (ValueError (''Unknown duplicate_policy '' @ [CHR 0x27]
                                              @ ''bogus'' @ [CHR 0x27]))]\<rparr>)"
  by code_simp

subsection \<open>Exceptions and the boundary of the import\<close>

lemma failing_row_invalid:
  assumes "failing_row L v row"
  shows "\<exists>e. validate_row L v row = Inl e"
  using assms unfolding failing_row_def validate_row_def Let_def
  by (auto split: option.splits sum.splits)

lemma row_failure_contained:
  "(row_body L pol v row (students, sm0\<lparr>read_rows := read_rows sm0 + 1\<rparr>) = Inl e
      \<longrightarrow> import_rows L pol v i (row # rows) (students, sm0)
          = import_rows L pol v (Suc i) rows
              (students,
               sm0\<lparr>read_rows := read_rows sm0 + 1, invalid_rows := invalid_rows sm0 + 1,
                   errors := errors sm0 @ [Line i e]\<rparr>))
   \<and> (failing_row L v row \<longrightarrow> (\<exists>e'. \<forall>st. row_body L pol v row st = Inl e'))"
proof (intro conjI impI)
  assume "row_body L pol v row (students, sm0\<lparr>read_rows := read_rows sm0 + 1\<rparr>) = Inl e"
  then show "import_rows L pol v i (row # rows) (students, sm0)
          = import_rows L pol v (Suc i) rows
              (students,
               sm0\<lparr>read_rows := read_rows sm0 + 1, invalid_rows := invalid_rows sm0 + 1,
                   errors := errors sm0 @ [Line i e]\<rparr>)"
    by (simp add: import_row_raise)
next
  assume "failing_row L v row"
  from failing_row_invalid [OF this] obtain e' where "validate_row L v row = Inl e'" by blast
  then have "\<forall>st. row_body L pol v row st = Inl e'" by (simp add: row_body_invalid)
  then show "\<exists>e'. \<forall>st. row_body L pol v row st = Inl e'" by blast
qed

text \<open>
  C9 is not met by the code. The claim lets no error leave the import. The test
  \<^verbatim>\<open>Path(csv_path).exists()\<close> stands before the \<^verbatim>\<open>try\<close>, and the OSError it raises for a
  file name that is too long (or a directory that may not be searched) leaves
  \<^verbatim>\<open>import_csv\<close>, where a failure of \<^verbatim>\<open>open\<close> right after it is caught and returned in the
  summary. The failures of a row, in contrast, never leave the loop (lemma
  \<open>row_failure_contained\<close>).
\<close>

theorem import_csv_exists_raises:
  "import_csv sample_lib sample_store (ExistsFails OSError) ''skip'' True
     = (sample_store, Raises OSError)"
  by (simp add: import_csv_def)

subsection \<open>Roll numbers under the public operations\<close>

lemma modify_first_map:
  "(\<And>x. g (f x) = g x) \<Longrightarrow> map g (modify_first P f xs) = map g xs"
  by (induction xs) simp_all

lemma modify_first_set:
  "x \<in> set (modify_first P f xs) \<Longrightarrow> x \<in> set xs \<or> (\<exists>y \<in> set xs. x = f y)"
  by (induction xs) (auto split: if_splits)

lemma setattr_kw_roll_no:
  "\<not> binds_parameter kw \<Longrightarrow> field_kwarg kw \<Longrightarrow> roll_no (setattr_kw kw s) = roll_no s"
  by (cases "(kw, s)" rule: setattr_kw.cases) simp_all

lemma fold_setattr_kw_roll_no:
  "\<not> list_ex binds_parameter kwargs \<Longrightarrow> list_all field_kwarg kwargs \<Longrightarrow>
   roll_no (fold setattr_kw kwargs s) = roll_no s"
  by (induction kwargs arbitrary: s) (simp_all add: setattr_kw_roll_no)

lemma update_student_rolls:
  assumes "list_all field_kwarg kwargs"
  shows "map roll_no (snd (update_student students k kwargs)) = map roll_no students"
proof (cases "list_ex binds_parameter kwargs")
  case True
  then show ?thesis by (simp add: update_student_def)
next
  case False
  have "map roll_no (modify_first (\<lambda>s. roll_no s = k) (\<lambda>s. fold setattr_kw kwargs s) students)
      = map roll_no students"
    by (rule modify_first_map) (rule fold_setattr_kw_roll_no [OF False assms])
  then show ?thesis using False
    by (simp add: update_student_def split: option.splits)
qed

lemma add_student_rolls:
  "\<exists>new. map roll_no (snd (add_student students s)) = map roll_no students @ new"
  by (simp add: add_student_def split: option.splits)

lemma add_student_distinct:
  "distinct (map roll_no students) \<Longrightarrow> distinct (map roll_no (snd (add_student students s)))"
  by (auto simp: add_student_def get_student_by_roll_None split: option.splits)

lemma find_Some_holds:
  "find P xs = Some x \<Longrightarrow> P x"
  by (induction xs) (auto split: if_splits)

lemma remove1_first_roll:
  "find (\<lambda>x. roll_no x = k) students = Some s \<Longrightarrow>
   map roll_no (remove1 s students) = remove1 k (map roll_no students)"
proof (induction students)
  case Nil
  then show ?case by simp
next
  case (Cons x students)
  have s: "roll_no s = k" using Cons.prems by (rule find_Some_holds)
  show ?case
  proof (cases "roll_no x = k")
    case True
    with Cons.prems have "x = s" by simp
    with True show ?thesis by simp
  next
    case False
    with Cons.prems have "find (\<lambda>x. roll_no x = k) students = Some s" by simp
    from Cons.IH [OF this] False s show ?thesis by auto
  qed
qed

lemma delete_student_rolls:
  "map roll_no (snd (delete_student students k)) = remove1 k (map roll_no students)"
proof (cases "get_student_by_roll students k")
  case None
  then have "k \<notin> set (map roll_no students)" by (simp add: get_student_by_roll_None)
  then show ?thesis using None by (simp add: delete_student_def remove1_idem)
next
  case (Some s)
  then show ?thesis
    by (simp add: delete_student_def get_student_by_roll_def remove1_first_roll)
qed

lemma resolve_row_rolls:
  assumes "resolve_row pol r (students, sm) = Inr (students', sm')"
  shows "(\<exists>new. map roll_no students' = map roll_no students @ new)
       \<and> (distinct (map roll_no students) \<longrightarrow> distinct (map roll_no students'))"
proof -
  obtain k n c m where r: "r = (k, n, c, m)" by (cases r)
  show ?thesis
  proof (cases "get_student_by_roll students k")
    case None
    then have "k \<notin> roll_no ` set students" by (simp add: get_student_by_roll_None)
    then show ?thesis using assms None by (auto simp: r resolve_row_new)
  next
    case (Some e)
    have fresh: "next_free_roll students \<notin> roll_no ` set students"
      using next_free_roll_greater [of _ students] by force
    have same: "map roll_no (modify_first (\<lambda>s. roll_no s = k)
        (\<lambda>s. s\<lparr>name := n, class_name := c, marks := m\<rparr>) students) = map roll_no students"
      by (simp add: modify_first_map)
    show ?thesis using assms Some fresh same
      by (auto simp: r resolve_row_def split: if_splits)
  qed
qed

lemma import_row_rolls:
  "(\<exists>new. map roll_no (fst (import_row L pol v i row (students, sm)))
          = map roll_no students @ new)
   \<and> (distinct (map roll_no students)
      \<longrightarrow> distinct (map roll_no (fst (import_row L pol v i row (students, sm)))))"
proof (cases "row_body L pol v row (students, sm\<lparr>read_rows := read_rows sm + 1\<rparr>)")
  case (Inl e)
  then show ?thesis by (simp add: import_row_raise)
next
  case (Inr st)
  obtain students' sm' where st: "st = (students', sm')" by (cases st)
  from Inr obtain r where
    "resolve_row pol r (students, sm\<lparr>read_rows := read_rows sm + 1\<rparr>) = Inr (students', sm')"
    by (auto simp: row_body_def st split: sum.splits)
  from resolve_row_rolls [OF this] show ?thesis
    using Inr by (simp add: import_row_return st)
qed

lemma import_rows_rolls:
  "(\<exists>new. map roll_no (fst (import_rows L pol v i rows (students, sm)))
          = map roll_no students @ new)
   \<and> (distinct (map roll_no students)
      \<longrightarrow> distinct (map roll_no (fst (import_rows L pol v i rows (students, sm)))))"
proof (induction rows arbitrary: i students sm)
  case Nil
  then show ?case by simp
next
  case (Cons row rows)
  obtain students1 sm1 where st1: "import_row L pol v i row (students, sm) = (students1, sm1)"
    by (cases "import_row L pol v i row (students, sm)")
  from import_row_rolls [of L pol v i row students sm] obtain new1 where
    one: "map roll_no students1 = map roll_no students @ new1"
      "distinct (map roll_no students) \<longrightarrow> distinct (map roll_no students1)"
    by (auto simp: st1)
  from Cons.IH [of "Suc i" students1 sm1] obtain new2 where
    rest: "map roll_no (fst (import_rows L pol v (Suc i) rows (students1, sm1)))
        = map roll_no students1 @ new2"
      "distinct (map roll_no students1)
        \<longrightarrow> distinct (map roll_no (fst (import_rows L pol v (Suc i) rows (students1, sm1))))"
    by blast
  from one rest show ?case by (simp add: st1)
qed

lemma import_csv_rolls:
  "(\<exists>new. map roll_no (fst (import_csv L students path pol v)) = map roll_no students @ new)
   \<and> (distinct (map roll_no students)
      \<longrightarrow> distinct (map roll_no (fst (import_csv L students path pol v))))"
proof (cases path)
  case (ExistsFails x)
  then show ?thesis by (simp add: import_csv_def)
next
  case NoSuchFile
  then show ?thesis by (simp add: import_csv_def)
next
  case (Unreadable x)
  then show ?thesis by (simp add: import_csv_def)
next
  case (Readable t)
  then show ?thesis
    using import_rows_rolls [of L pol v 2 "DictReader t" students summary0]
    by (cases "headers_ok (fieldnames t)")
       (simp_all add: import_csv_Readable import_csv_not_Readable)
qed

lemma call_op_distinct:
  assumes "distinct (map roll_no students)" and "field_call c"
  shows "distinct (map roll_no (call_op L c students))"
proof (cases c)
  case (Add s)
  then show ?thesis using assms by (simp add: add_student_distinct)
next
  case (Update k kwargs)
  with assms(2) have "list_all field_kwarg kwargs" by simp
  then show ?thesis using assms(1) Update by (simp add: update_student_rolls)
next
  case (Delete k)
  then show ?thesis using assms by (simp add: delete_student_rolls)
next
  case (Import path pol v)
  then show ?thesis using assms import_csv_rolls [of L students path pol v] by simp
qed

lemma run_calls_distinct:
  "distinct (map roll_no students) \<Longrightarrow> list_all field_call calls \<Longrightarrow>
   distinct (map roll_no (run_calls L calls students))"
  unfolding run_calls_def
  by (induction calls arbitrary: students) (simp_all add: call_op_distinct)

text \<open>
  C2, as the code has it. A store whose roll numbers are pairwise different keeps them so
  under every sequence of \<^verbatim>\<open>add_student\<close>, \<^verbatim>\<open>update_student\<close>, \<^verbatim>\<open>delete_student\<close> and
  \<^verbatim>\<open>import_csv\<close> calls in which no update is given the keyword \<^verbatim>\<open>__dict__\<close> with a
  dictionary. No such call changes the roll number of a record of the store: an update
  with any values for the name, the class and the marks leaves the list of rolls as it
  was, an add and an import only append to it, and a delete only takes the deleted roll
  out.
\<close>

theorem rolls_unique_and_fixed:
  "(distinct (map roll_no students) \<and> list_all field_call calls
      \<longrightarrow> distinct (map roll_no (run_calls L calls students)))
   \<and> (list_all field_kwarg kwargs
      \<longrightarrow> map roll_no (call_op L (Update k kwargs) students) = map roll_no students)
   \<and> (\<exists>new. map roll_no (call_op L (Add s) students) = map roll_no students @ new)
   \<and> (\<exists>new. map roll_no (call_op L (Import path pol v) students) = map roll_no students @ new)
   \<and> map roll_no (call_op L (Delete k) students) = remove1 k (map roll_no students)"
  using import_csv_rolls [of L students path pol v]
  by (simp add: run_calls_distinct update_student_rolls add_student_rolls delete_student_rolls)

theorem rolls_unique_and_fixed_witness:
  "distinct (map roll_no sample_store)
   \<and> list_all field_call
        [Add \<lparr>roll_no = 1, name = ''Twin'', class_name = ''Y'', marks = (10::int)\<rparr>,
         Update 1 [Kw_name (Some ''Renamed''), Kw_marks (Some 60), Kw_other ''age''],
         Import (sample_file [[''1'', ''Ann'', ''Y'', ''70''], [''2'', ''Bob'', ''Z'', ''80'']])
           ''reassign'' True,
         Delete 1]
   \<and> list_all field_kwarg [Kw_name (Some ''Renamed''), Kw_marks (Some (60::int)), Kw_other ''age'']
   \<and> distinct (map roll_no (run_calls sample_lib
        [Add \<lparr>roll_no = 1, name = ''Twin'', class_name = ''Y'', marks = 10\<rparr>,
         Update 1 [Kw_name (Some ''Renamed''), Kw_marks (Some 60), Kw_other ''age''],
         Import (sample_file [[''1'', ''Ann'', ''Y'', ''70''], [''2'', ''Bob'', ''Z'', ''80'']])
           ''reassign'' True,
         Delete 1] sample_store))
   \<and> map roll_no (call_op sample_lib
        (Update 1 [Kw_name (Some ''Renamed''), Kw_marks (Some 60), Kw_other ''age''])
        sample_store) = map roll_no sample_store
   \<and> map roll_no (run_calls sample_lib
        [Add \<lparr>roll_no = 1, name = ''Twin'', class_name = ''Y'', marks = 10\<rparr>,
         Update 1 [Kw_name (Some ''Renamed''), Kw_marks (Some 60), Kw_other ''age''],
         Import (sample_file [[''1'', ''Ann'', ''Y'', ''70''], [''2'', ''Bob'', ''Z'', ''80'']])
           ''reassign'' True,
         Delete 1] sample_store) = [2, 3]"
proof -
  have d: "distinct (map roll_no sample_store)" by code_simp
  have f: "list_all field_call
        [Add \<lparr>roll_no = 1, name = ''Twin'', class_name = ''Y'', marks = (10::int)\<rparr>,
         Update 1 [Kw_name (Some ''Renamed''), Kw_marks (Some 60), Kw_other ''age''],
         Import (sample_file [[''1'', ''Ann'', ''Y'', ''70''], [''2'', ''Bob'', ''Z'', ''80'']])
           ''reassign'' True,
         Delete 1]"
    by simp
  have g: "list_all field_kwarg
        [Kw_name (Some ''Renamed''), Kw_marks (Some (60::int)), Kw_other ''age'']"
    by simp
  have r: "map roll_no (run_calls sample_lib
        [Add \<lparr>roll_no = 1, name = ''Twin'', class_name = ''Y'', marks = 10\<rparr>,
         Update 1 [Kw_name (Some ''Renamed''), Kw_marks (Some 60), Kw_other ''age''],
         Import (sample_file [[''1'', ''Ann'', ''Y'', ''70''], [''2'', ''Bob'', ''Z'', ''80'']])
           ''reassign'' True,
         Delete 1] sample_store) = [2, 3]"
    by code_simp
  show ?thesis
    using d f g r rolls_unique_and_fixed [where students = sample_store and L = sample_lib
      and k = 1
      and kwargs = "[Kw_name (Some ''Renamed''), Kw_marks (Some 60), Kw_other ''age'']"
      and calls = "[Add \<lparr>roll_no = 1, name = ''Twin'', class_name = ''Y'', marks = 10\<rparr>,
         Update 1 [Kw_name (Some ''Renamed''), Kw_marks (Some 60), Kw_other ''age''],
         Import (sample_file [[''1'', ''Ann'', ''Y'', ''70''], [''2'', ''Bob'', ''Z'', ''80'']])
           ''reassign'' True,
         Delete 1]"]
    by blast
qed

text \<open>
  C2 as stated fails. In a store with the rolls 1 and 2, one update of the record with
  roll 1 through the keyword \<^verbatim>\<open>__dict__\<close> gives it the roll 2: the roll of a record has
  changed, and two records share a roll.
\<close>

theorem rolls_unique_and_fixed_counterexample:
  "map roll_no (run_calls sample_lib
      [Update 1 [Kw_dict (Some \<lparr>roll_no = 2, name = ''Ann'', class_name = ''X'', marks = 55\<rparr>)]]
      [\<lparr>roll_no = 1, name = ''Ann'', class_name = ''X'', marks = 55\<rparr>,
       \<lparr>roll_no = 2, name = ''Bob'', class_name = ''Y'', marks = 60\<rparr>]) = [2, 2]"
  by code_simp

subsection \<open>Names and classes of the records\<close>

lemma validate_row_names:
  assumes "validate_row L v row = Inr (k, n, c, m)"
  shows "n \<noteq> [] \<and> c \<noteq> []"
  using assms unfolding validate_row_def Let_def
  by (auto split: option.splits sum.splits if_splits)

lemma names_ok_modify_first:
  assumes "names_ok students"
    and "\<And>s. name s \<noteq> [] \<and> class_name s \<noteq> [] \<Longrightarrow> name (f s) \<noteq> [] \<and> class_name (f s) \<noteq> []"
  shows "names_ok (modify_first P f students)"
  using assms(1) unfolding names_ok_def
  by (induction students) (simp_all add: assms(2))

lemma setattr_kw_names:
  "kwarg_ok kw \<Longrightarrow> name s \<noteq> [] \<and> class_name s \<noteq> [] \<Longrightarrow>
   name (setattr_kw kw s) \<noteq> [] \<and> class_name (setattr_kw kw s) \<noteq> []"
  by (cases "(kw, s)" rule: setattr_kw.cases) simp_all

lemma fold_setattr_kw_names:
  "list_all kwarg_ok kwargs \<Longrightarrow> name s \<noteq> [] \<and> class_name s \<noteq> [] \<Longrightarrow>
   name (fold setattr_kw kwargs s) \<noteq> [] \<and> class_name (fold setattr_kw kwargs s) \<noteq> []"
proof (induction kwargs arbitrary: s)
  case Nil
  then show ?case by simp
next
  case (Cons kw kwargs)
  from Cons.prems have "name (setattr_kw kw s) \<noteq> [] \<and> class_name (setattr_kw kw s) \<noteq> []"
    using setattr_kw_names [of kw s] by simp
  with Cons.prems Cons.IH [of "setattr_kw kw s"] show ?case by simp
qed

lemma names_ok_remove1:
  "names_ok students \<Longrightarrow> names_ok (remove1 s students)"
  unfolding names_ok_def list_all_iff using set_remove1_subset by fastforce

lemma resolve_row_names:
  assumes "resolve_row pol (k, n, c, m) (students, sm) = Inr (students', sm')"
    and "names_ok students" and "n \<noteq> []" and "c \<noteq> []"
  shows "names_ok students'"
proof (cases "get_student_by_roll students k")
  case None
  from assms(1) have "students' = students @ [\<lparr>roll_no = k, name = n, class_name = c, marks = m\<rparr>]"
    by (simp add: resolve_row_new [OF None])
  then show ?thesis using assms(2-4) by (simp add: names_ok_def)
next
  case (Some e)
  have over: "names_ok (modify_first (\<lambda>s. roll_no s = k)
      (\<lambda>s. s\<lparr>name := n, class_name := c, marks := m\<rparr>) students)"
    using assms(2) by (rule names_ok_modify_first) (simp add: assms(3,4))
  have app: "names_ok (students @ [\<lparr>roll_no = next_free_roll students, name = n,
      class_name = c, marks = m\<rparr>])"
    using assms(2-4) by (simp add: names_ok_def)
  consider "pol = ''skip''" | "pol = ''overwrite''" | "pol = ''reassign''"
    | "pol \<noteq> ''skip''" "pol \<noteq> ''overwrite''" "pol \<noteq> ''reassign''"
    by blast
  then show ?thesis
  proof cases
    case 1
    with assms(1) have "students' = students" by (simp add: resolve_row_skip [OF Some])
    then show ?thesis using assms(2) by simp
  next
    case 2
    with assms(1) over show ?thesis by (simp add: resolve_row_overwrite [OF Some])
  next
    case 3
    with assms(1) app show ?thesis by (simp add: resolve_row_reassign [OF Some])
  next
    case 4
    with assms(1) show ?thesis by (simp add: resolve_row_unknown [OF Some])
  qed
qed

lemma import_row_names:
  assumes "names_ok students"
  shows "names_ok (fst (import_row L pol v i row (students, sm)))"
proof (cases "row_body L pol v row (students, sm\<lparr>read_rows := read_rows sm + 1\<rparr>)")
  case (Inl e)
  then show ?thesis using assms by (simp add: import_row_raise)
next
  case (Inr st)
  obtain students' sm' where st: "st = (students', sm')" by (cases st)
  from Inr obtain r where valid: "validate_row L v row = Inr r" and
    res: "resolve_row pol r (students, sm\<lparr>read_rows := read_rows sm + 1\<rparr>) = Inr (students', sm')"
    by (auto simp: row_body_def st split: sum.splits)
  obtain k n c m where r: "r = (k, n, c, m)" by (cases r)
  from valid have nc: "n \<noteq> [] \<and> c \<noteq> []" unfolding r by (rule validate_row_names)
  from res have res': "resolve_row pol (k, n, c, m) (students, sm\<lparr>read_rows := read_rows sm + 1\<rparr>)
      = Inr (students', sm')" unfolding r .
  from nc have "names_ok students'"
    using resolve_row_names [OF res' assms] by blast
  then show ?thesis using Inr by (simp add: import_row_return st)
qed

lemma import_rows_names:
  "names_ok students \<Longrightarrow> names_ok (fst (import_rows L pol v i rows (students, sm)))"
proof (induction rows arbitrary: i students sm)
  case Nil
  then show ?case by simp
next
  case (Cons row rows)
  obtain students1 sm1 where st1: "import_row L pol v i row (students, sm) = (students1, sm1)"
    by (cases "import_row L pol v i row (students, sm)")
  from import_row_names [OF Cons.prems, of L pol v i row sm] have "names_ok students1"
    by (simp add: st1)
  from Cons.IH [OF this] show ?case by (simp add: st1)
qed

lemma import_csv_names:
  assumes "names_ok students"
  shows "names_ok (fst (import_csv L students path pol v))"
proof (cases path)
  case (ExistsFails x)
  then show ?thesis using assms by (simp add: import_csv_def)
next
  case NoSuchFile
  then show ?thesis using assms by (simp add: import_csv_def)
next
  case (Unreadable x)
  then show ?thesis using assms by (simp add: import_csv_def)
next
  case (Readable t)
  then show ?thesis
    using assms import_rows_names [OF assms, of L pol v 2 "DictReader t" summary0]
    by (cases "headers_ok (fieldnames t)")
       (simp_all add: import_csv_Readable import_csv_not_Readable)
qed

lemma call_op_names:
  assumes "names_ok students" and "call_ok c"
  shows "names_ok (call_op L c students)"
proof (cases c)
  case (Add s)
  then show ?thesis using assms
    by (auto simp: add_student_def names_ok_def split: option.splits)
next
  case (Update k kwargs)
  with assms(2) have ok: "list_all kwarg_ok kwargs" by simp
  have "names_ok (modify_first (\<lambda>s. roll_no s = k) (\<lambda>s. fold setattr_kw kwargs s) students)"
    using assms(1) by (rule names_ok_modify_first) (rule fold_setattr_kw_names [OF ok])
  then show ?thesis using assms(1) Update
    by (auto simp: update_student_def split: option.splits)
next
  case (Delete k)
  then show ?thesis using assms(1)
    by (auto simp: delete_student_def names_ok_remove1 split: option.splits)
next
  case (Import path pol v)
  then show ?thesis using assms(1) by (simp add: import_csv_names)
qed

text \<open>
  C10, as the code has it. \<^verbatim>\<open>add_student\<close> and \<^verbatim>\<open>update_student\<close> store the name and
  class they are given, empty or not. When every record of the store has a non-empty
  name and class, this stays so under every sequence of calls in which no add and no
  update is given an empty name or class: imports and deletes never break it.
\<close>

theorem names_kept_nonempty:
  "names_ok students \<Longrightarrow> list_all call_ok calls \<Longrightarrow> names_ok (run_calls L calls students)"
  unfolding run_calls_def
proof (induction calls arbitrary: students)
  case Nil
  then show ?case by simp
next
  case (Cons c calls)
  from Cons.prems have "names_ok (call_op L c students)" by (simp add: call_op_names)
  with Cons.prems Cons.IH [of "call_op L c students"] show ?case by simp
qed

theorem names_kept_nonempty_witness:
  "names_ok sample_store
   \<and> list_all call_ok
        [Add \<lparr>roll_no = 2, name = ''Bob'', class_name = ''Y'', marks = (10::int)\<rparr>,
         Update 1 [Kw_name (Some ''Renamed''), Kw_class_name None],
         Import (sample_file [[''1'', ''Ann'', ''Y'', ''70''], [''3'', '''', ''Z'', ''80'']])
           ''overwrite'' True,
         Delete 2]
   \<and> names_ok (run_calls sample_lib
        [Add \<lparr>roll_no = 2, name = ''Bob'', class_name = ''Y'', marks = 10\<rparr>,
         Update 1 [Kw_name (Some ''Renamed''), Kw_class_name None],
         Import (sample_file [[''1'', ''Ann'', ''Y'', ''70''], [''3'', '''', ''Z'', ''80'']])
           ''overwrite'' True,
         Delete 2] sample_store)"
proof -
  have a: "names_ok sample_store" by code_simp
  have b: "list_all call_ok
        [Add \<lparr>roll_no = 2, name = ''Bob'', class_name = ''Y'', marks = (10::int)\<rparr>,
         Update 1 [Kw_name (Some ''Renamed''), Kw_class_name None],
         Import (sample_file [[''1'', ''Ann'', ''Y'', ''70''], [''3'', '''', ''Z'', ''80'']])
           ''overwrite'' True,
         Delete 2]"
    by simp
  from a b names_kept_nonempty [OF a b, of sample_lib] show ?thesis by blast
qed

text \<open>
  C10 as stated fails: an added record with an empty name and class is stored, and an
  update with an empty name empties the name of a stored record.
\<close>

theorem names_kept_nonempty_counterexample:
  "run_calls sample_lib [Add \<lparr>roll_no = 1, name = '''', class_name = '''', marks = 50\<rparr>] []
     = [\<lparr>roll_no = 1, name = '''', class_name = '''', marks = 50\<rparr>]
   \<and> run_calls sample_lib [Update 1 [Kw_name (Some '''')]] sample_store
     = [\<lparr>roll_no = 1, name = '''', class_name = ''X'', marks = 55\<rparr>]"
  by code_simp

subsection \<open>Export followed by import\<close>

lemma decimal_digit_char:
  "d < 10 \<Longrightarrow> is_decimal (char_of (48 + d)) \<and> (of_char (char_of (48 + d)) :: int) = 48 + int d"
proof -
  assume d: "d < 10"
  have "(of_char (char_of (48 + d)) :: nat) = 48 + d" using d by simp
  moreover then have "(of_char (char_of (48 + d)) :: int) = int (48 + d)"
    by (metis of_nat_of_char)
  ultimately show ?thesis using d by (simp add: is_decimal_def)
qed

lemma decimal_value_snoc:
  "decimal_value (s @ [c]) = 10 * decimal_value s + (of_char c - 48)"
  by (simp add: decimal_value_def)

lemma digits_of_nat_decimal:
  "list_all is_decimal (digits_of_nat n) \<and> digits_of_nat n \<noteq> []
   \<and> decimal_value (digits_of_nat n) = int n"
proof (induction n rule: digits_of_nat.induct)
  case (1 n)
  show ?case
  proof (cases "n < 10")
    case True
    then show ?thesis
      using decimal_digit_char [of n]
      by (subst (1 2 3) digits_of_nat.simps) (simp add: decimal_value_def)
  next
    case False
    have m: "n mod 10 < 10" by simp
    from False "1.IH" have ih: "list_all is_decimal (digits_of_nat (n div 10))"
      "decimal_value (digits_of_nat (n div 10)) = int (n div 10)" by simp_all
    have "int n = 10 * int (n div 10) + int (n mod 10)" by (simp add: zdiv_int zmod_int)
    with False ih decimal_digit_char [OF m] show ?thesis
      by (subst (1 2 3) digits_of_nat.simps) (simp add: decimal_value_snoc)
  qed
qed

lemma is_decimal_not_space:
  "is_decimal c \<Longrightarrow> \<not> isspace c"
  by (auto simp: is_decimal_def isspace_def Let_def)

lemma dropWhile_none:
  "list_all (\<lambda>c. \<not> P c) s \<Longrightarrow> dropWhile P s = s"
  by (cases s) simp_all

lemma strip_no_space:
  assumes "list_all (\<lambda>c. \<not> isspace c) s"
  shows "strip s = s"
proof -
  from assms have "list_all (\<lambda>c. \<not> isspace c) (rev s)" by (simp add: list_all_iff)
  then have "dropWhile isspace (rev s) = rev s" by (rule dropWhile_none)
  moreover from assms have "dropWhile isspace s = s" by (rule dropWhile_none)
  ultimately show ?thesis by (simp add: strip_def)
qed

lemma decimal_text_roll:
  assumes "0 \<le> k" and "int (length (digits_of_nat (nat k))) \<le> max_str_digits"
  shows "str_int k = Inr (decimal_text k) \<and> strip (decimal_text k) = decimal_text k
       \<and> isdigit (decimal_text k) \<and> int_of_digits (decimal_text k) = Inr k
       \<and> int (length (decimal_text k)) \<le> field_size_limit"
proof -
  let ?s = "digits_of_nat (nat k)"
  have s: "decimal_text k = ?s" using assms(1) by (simp add: decimal_text_def)
  have abs: "nat \<bar>k\<bar> = nat k" using assms(1) by simp
  from digits_of_nat_decimal [of "nat k"] have dec: "list_all is_decimal ?s" "?s \<noteq> []"
    "decimal_value ?s = k" using assms(1) by simp_all
  from dec(1) have "list_all (\<lambda>c. \<not> isspace c) ?s"
    by (auto simp: list_all_iff is_decimal_not_space)
  then have "strip ?s = ?s" by (rule strip_no_space)
  moreover from dec(1,2) have "isdigit ?s"
    by (auto simp: isdigit_def list_all_iff is_digit_char_def Let_def)
  moreover have "int_of_digits ?s = Inr k"
  proof -
    from dec(1) have tw: "takeWhile is_decimal ?s = ?s"
      by (simp add: takeWhile_eq_all_conv list_all_iff)
    show ?thesis
      unfolding int_of_digits_def Let_def tw using dec(1,3) assms(2) by simp
  qed
  moreover have "str_int k = Inr (decimal_text k)"
    using assms(2) by (simp add: str_int_def abs)
  moreover have "int (length ?s) \<le> field_size_limit"
    using assms(2) by (simp add: max_str_digits_def field_size_limit_def)
  ultimately show ?thesis by (simp add: s)
qed

lemma export_row_exportable:
  assumes "exportable L v s"
  shows "export_row L s = Inr (exported_cells L s)"
proof -
  from assms have "0 \<le> roll_no s" "int (length (digits_of_nat (nat (roll_no s)))) \<le> max_str_digits"
    by (simp_all add: exportable_def)
  from decimal_text_roll [OF this] show ?thesis
    by (simp add: export_row_def exported_cells_def)
qed

lemma export_rows_exportable:
  "list_all (exportable L v) xs \<Longrightarrow> export_rows L xs = (map (exported_cells L) xs, None)"
proof (induction xs)
  case Nil
  show ?case by simp
next
  case (Cons x xs)
  from Cons.prems have "exportable L v x" and rest: "list_all (exportable L v) xs"
    by simp_all
  then have "export_row L x = Inr (exported_cells L x)" by (simp add: export_row_exportable)
  with Cons.IH [OF rest] show ?case by simp
qed

lemma exported_cells_fit:
  assumes "exportable L v s"
  shows "row_fits (exported_cells L s)"
proof -
  from assms have "0 \<le> roll_no s" "int (length (digits_of_nat (nat (roll_no s)))) \<le> max_str_digits"
    by (simp_all add: exportable_def)
  from decimal_text_roll [OF this] assms show ?thesis
    by (simp add: row_fits_def exported_cells_def exportable_def)
qed

lemma csv_open_exported:
  assumes "list_all (exportable L v) xs"
  shows "csv_open \<lparr>header_cells = [''roll_no'', ''name'', ''class_name'', ''marks''],
                    body_cells = map (exported_cells L) xs\<rparr>
         = Readable \<lparr>fieldnames = [''roll_no'', ''name'', ''class_name'', ''marks''],
                     data_rows = map (exported_cells L) xs, read_failure = None\<rparr>"
proof -
  have h: "row_fits [''roll_no'', ''name'', ''class_name'', ''marks'']"
    by (simp add: row_fits_def field_size_limit_def)
  from assms have all: "list_all row_fits (map (exported_cells L) xs)"
    by (auto simp: list_all_iff exported_cells_fit)
  then have "takeWhile row_fits (map (exported_cells L) xs) = map (exported_cells L) xs"
    by (simp only: takeWhile_eq_all_conv list_all_iff) 
  with h all show ?thesis by (simp add: csv_open_def)
qed

lemma dict_row_canonical:
  "dict_get (dict_row [''roll_no'', ''name'', ''class_name'', ''marks''] [a, b, c, d])
      ''roll_no'' dflt = Some a
   \<and> dict_get (dict_row [''roll_no'', ''name'', ''class_name'', ''marks''] [a, b, c, d])
      ''name'' dflt = Some b
   \<and> dict_get (dict_row [''roll_no'', ''name'', ''class_name'', ''marks''] [a, b, c, d])
      ''class_name'' dflt = Some c
   \<and> dict_get (dict_row [''roll_no'', ''name'', ''class_name'', ''marks''] [a, b, c, d])
      ''marks'' dflt = Some d"
  by (simp add: dict_get_def dict_row_def)

lemma validate_exported_row:
  assumes "exportable L v s"
  shows "validate_row L v
           (dict_row [''roll_no'', ''name'', ''class_name'', ''marks''] (exported_cells L s))
         = Inr (roll_no s, name s, class_name s, marks s)"
proof -
  from assms have "0 \<le> roll_no s" "int (length (digits_of_nat (nat (roll_no s)))) \<le> max_str_digits"
    by (simp_all add: exportable_def)
  note roll = decimal_text_roll [OF this]
  show ?thesis
    using assms roll
    by (simp add: validate_row_def exported_cells_def dict_row_canonical or_empty_def
        exportable_def Let_def)
qed

lemma import_exported_rows:
  assumes "list_all (exportable L v) xs"
    and "distinct (map roll_no xs)"
    and "set (map roll_no xs) \<inter> set (map roll_no students) = {}"
  shows "import_rows L ''skip'' v i
           (map (dict_row [''roll_no'', ''name'', ''class_name'', ''marks''] \<circ> exported_cells L)
              xs)
           (students, sm)
         = (students @ xs,
            sm\<lparr>read_rows := read_rows sm + length xs, imported := imported sm + length xs\<rparr>)"
  using assms
proof (induction xs arbitrary: students sm i)
  case Nil
  then show ?case by simp
next
  case (Cons x xs)
  from Cons.prems(1) have ex: "exportable L v x" and exs: "list_all (exportable L v) xs"
    by simp_all
  from Cons.prems(3) have "roll_no x \<notin> roll_no ` set students" by auto
  then have new: "get_student_by_roll students (roll_no x) = None"
    by (simp add: get_student_by_roll_None)
  have whole: "\<lparr>roll_no = roll_no x, name = name x, class_name = class_name x, marks = marks x\<rparr>
      = x" by simp
  have step: "import_row L ''skip'' v i
      (dict_row [''roll_no'', ''name'', ''class_name'', ''marks''] (exported_cells L x))
      (students, sm)
    = (students @ [x], sm\<lparr>read_rows := read_rows sm + 1, imported := imported sm + 1\<rparr>)"
    by (simp add: import_row_def row_body_valid [OF validate_exported_row [OF ex]]
        resolve_row_new [OF new] whole)
  from Cons.prems(2,3) have d: "distinct (map roll_no xs)"
    and disj: "set (map roll_no xs) \<inter> set (map roll_no (students @ [x])) = {}"
    by auto
  let ?F = "dict_row [''roll_no'', ''name'', ''class_name'', ''marks''] \<circ> exported_cells L"
  let ?sm1 = "sm\<lparr>read_rows := read_rows sm + 1, imported := imported sm + 1\<rparr>"
  have "import_rows L ''skip'' v i (map ?F (x # xs)) (students, sm)
      = import_rows L ''skip'' v (Suc i) (map ?F xs) (students @ [x], ?sm1)"
    by (simp only: list.map import_rows.simps comp_apply step)
  also have "\<dots> = ((students @ [x]) @ xs,
      ?sm1\<lparr>read_rows := read_rows ?sm1 + length xs, imported := imported ?sm1 + length xs\<rparr>)"
    by (rule Cons.IH [OF exs d disj])
  also have "\<dots> = (students @ x # xs,
      sm\<lparr>read_rows := read_rows sm + length (x # xs),
         imported := imported sm + length (x # xs)\<rparr>)"
    by simp
  finally show ?case .
qed

text \<open>
  C4, as the code has it. For a store whose roll numbers are pairwise different, not
  negative and of at most 4300 digits, whose names and classes are non-empty, carry no
  surrounding whitespace and have at most 131072 characters, and whose marks are read
  back by \<^verbatim>\<open>float\<close> from their rendering (and are within 0 to 100 when validation is on):
  the export to a destination that can be written, followed by the import of the file
  into an empty store under \<^verbatim>\<open>skip\<close>, imports every record, reports nothing else, and
  the new store holds the same records, in the order of the listing.
\<close>

theorem export_import_round_trip:
  "distinct (map roll_no students) \<Longrightarrow> list_all (exportable L v) students \<Longrightarrow>
   export_then_import L v students
     = Some (list_students students,
             Returns (summary0\<lparr>read_rows := length students, imported := length students\<rparr>))
   \<and> set (list_students students) = set students"
proof -
  assume d: "distinct (map roll_no students)" and ex: "list_all (exportable L v) students"
  let ?xs = "list_students students"
  let ?t = "\<lparr>fieldnames = [''roll_no'', ''name'', ''class_name'', ''marks''],
             data_rows = map (exported_cells L) ?xs, read_failure = None\<rparr>"
  have set_xs: "set ?xs = set students" by (simp add: list_students_def)
  have len: "length ?xs = length students" by (simp add: list_students_def)
  from d have "distinct students" "inj_on roll_no (set students)"
    by (simp_all add: distinct_map)
  then have d': "distinct (map roll_no ?xs)"
    by (simp add: distinct_map list_students_def)
  from ex have ex': "list_all (exportable L v) ?xs"
    by (simp add: list_all_iff set_xs)
  have exported: "export_csv L True students
      = (length ?xs, Some \<lparr>header_cells = [''roll_no'', ''name'', ''class_name'', ''marks''],
                            body_cells = map (exported_cells L) ?xs\<rparr>)"
    by (simp add: export_csv_def export_rows_exportable [OF ex'])
  have ok: "headers_ok (fieldnames ?t)" by (simp add: headers_ok_def required_def)
  have rows: "DictReader ?t
      = map (dict_row [''roll_no'', ''name'', ''class_name'', ''marks''] \<circ> exported_cells L) ?xs"
    by (simp add: DictReader_def exported_cells_def filter_id_conv)
  have "import_rows L ''skip'' v 2 (DictReader ?t) ([], summary0)
      = ([] @ ?xs,
         summary0\<lparr>read_rows := read_rows summary0 + length ?xs,
                   imported := imported summary0 + length ?xs\<rparr>)"
    unfolding rows by (rule import_exported_rows [OF ex' d']) simp
  then have "import_csv L [] (Readable ?t) ''skip'' v
      = (?xs, Returns (summary0\<lparr>read_rows := length students, imported := length students\<rparr>))"
    by (simp add: import_csv_Readable [OF ok] len summary0_def)
  then show ?thesis
    by (simp add: export_then_import_def exported csv_open_exported [OF ex'] set_xs)
qed

theorem export_import_round_trip_witness:
  "distinct (map roll_no
      [\<lparr>roll_no = 3, name = ''Chirag Mehta'', class_name = ''10-B'', marks = 91\<rparr>,
       \<lparr>roll_no = 1, name = ''Alice Johnson'', class_name = ''10-A'', marks = (88::int)\<rparr>])
   \<and> list_all (exportable sample_lib True)
      [\<lparr>roll_no = 3, name = ''Chirag Mehta'', class_name = ''10-B'', marks = 91\<rparr>,
       \<lparr>roll_no = 1, name = ''Alice Johnson'', class_name = ''10-A'', marks = 88\<rparr>]
   \<and> export_then_import sample_lib True
      [\<lparr>roll_no = 3, name = ''Chirag Mehta'', class_name = ''10-B'', marks = 91\<rparr>,
       \<lparr>roll_no = 1, name = ''Alice Johnson'', class_name = ''10-A'', marks = 88\<rparr>]
     = Some ([\<lparr>roll_no = 1, name = ''Alice Johnson'', class_name = ''10-A'', marks = 88\<rparr>,
              \<lparr>roll_no = 3, name = ''Chirag Mehta'', class_name = ''10-B'', marks = 91\<rparr>],
             Returns (summary0\<lparr>read_rows := 2, imported := 2\<rparr>))"
proof -
  have d: "distinct (map roll_no
      [\<lparr>roll_no = 3, name = ''Chirag Mehta'', class_name = ''10-B'', marks = 91\<rparr>,
       \<lparr>roll_no = 1, name = ''Alice Johnson'', class_name = ''10-A'', marks = (88::int)\<rparr>])"
    by simp
  have ex: "list_all (exportable sample_lib True)
      [\<lparr>roll_no = 3, name = ''Chirag Mehta'', class_name = ''10-B'', marks = 91\<rparr>,
       \<lparr>roll_no = 1, name = ''Alice Johnson'', class_name = ''10-A'', marks = 88\<rparr>]"
    by code_simp
  have ls: "list_students
      [\<lparr>roll_no = 3, name = ''Chirag Mehta'', class_name = ''10-B'', marks = 91\<rparr>,
       \<lparr>roll_no = 1, name = ''Alice Johnson'', class_name = ''10-A'', marks = (88::int)\<rparr>]
    = [\<lparr>roll_no = 1, name = ''Alice Johnson'', class_name = ''10-A'', marks = 88\<rparr>,
       \<lparr>roll_no = 3, name = ''Chirag Mehta'', class_name = ''10-B'', marks = 91\<rparr>]"
    by (simp add: list_students_def)
  from export_import_round_trip [OF d ex] d ex show ?thesis
    by (simp add: ls)
qed

lemma long_name_not_read_back:
  assumes "0 \<le> roll_no s" and "int (length (digits_of_nat (nat (roll_no s)))) \<le> max_str_digits"
    and "field_size_limit < int (length (name s))"
  shows "export_then_import L v [s]
         = Some ([], Returns (summary0\<lparr>errors := [ImportFailed CsvError]\<rparr>))"
proof -
  from decimal_text_roll [OF assms(1,2)]
  have row: "export_row L s = Inr (exported_cells L s)"
    by (simp add: export_row_def exported_cells_def)
  have nofit: "\<not> row_fits (exported_cells L s)"
    using assms(3) by (simp add: row_fits_def exported_cells_def)
  have h: "row_fits [''roll_no'', ''name'', ''class_name'', ''marks'']"
    by (simp add: row_fits_def field_size_limit_def)
  have opened: "csv_open \<lparr>header_cells = [''roll_no'', ''name'', ''class_name'', ''marks''],
                            body_cells = [exported_cells L s]\<rparr>
      = Readable \<lparr>fieldnames = [''roll_no'', ''name'', ''class_name'', ''marks''],
                  data_rows = [], read_failure = Some CsvError\<rparr>"
    using h nofit by (simp add: csv_open_def)
  have ok: "headers_ok [''roll_no'', ''name'', ''class_name'', ''marks'']"
    by (simp add: headers_ok_def required_def)
  show ?thesis
    using ok
    by (simp add: export_then_import_def export_csv_def list_students_def row opened
        import_csv_def DictReader_def summary0_def)
qed

text \<open>
  C4 as stated fails. A store of two records, one with a negative roll number and one
  with a name that starts with a blank: the exported file imports one record, not two,
  and that record has the blank stripped from its name. And a store of one record with
  a name of 131073 characters: the reader of the exported file raises at that name, and
  nothing is imported.
\<close>

theorem export_import_round_trip_counterexample:
  "export_then_import sample_lib True
      [\<lparr>roll_no = - 1, name = ''Ann'', class_name = ''X'', marks = 50\<rparr>,
       \<lparr>roll_no = 2, name = '' Bob'', class_name = ''Y'', marks = 60\<rparr>]
   = Some ([\<lparr>roll_no = 2, name = ''Bob'', class_name = ''Y'', marks = 60\<rparr>],
           Returns \<lparr>read_rows = 2, imported = 1, skipped_duplicates = 0, overwritten = 0,
                    reassigned = 0, invalid_rows = 1,
                    errors = [Line 2 (ValueError ''roll_no must be an integer'')]\<rparr>)
   \<and> export_then_import sample_lib True
      [\<lparr>roll_no = 1, name = replicate 131073 (CHR ''a''), class_name = ''X'', marks = 50\<rparr>]
   = Some ([], Returns (summary0\<lparr>errors := [ImportFailed CsvError]\<rparr>))"
proof -
  have first: "export_then_import sample_lib True
      [\<lparr>roll_no = - 1, name = ''Ann'', class_name = ''X'', marks = 50\<rparr>,
       \<lparr>roll_no = 2, name = '' Bob'', class_name = ''Y'', marks = 60\<rparr>]
   = Some ([\<lparr>roll_no = 2, name = ''Bob'', class_name = ''Y'', marks = 60\<rparr>],
           Returns \<lparr>read_rows = 2, imported = 1, skipped_duplicates = 0, overwritten = 0,
                    reassigned = 0, invalid_rows = 1,
                    errors = [Line 2 (ValueError ''roll_no must be an integer'')]\<rparr>)"
    by code_simp
  have digits: "int (length (digits_of_nat (Suc 0))) \<le> max_str_digits"
    by code_simp
  have second: "export_then_import sample_lib True
      [\<lparr>roll_no = 1, name = replicate 131073 (CHR ''a''), class_name = ''X'', marks = 50\<rparr>]
   = Some ([], Returns (summary0\<lparr>errors := [ImportFailed CsvError]\<rparr>))"
    by (rule long_name_not_read_back) (simp_all add: digits field_size_limit_def)
  from first second show ?thesis by (rule conjI)
qed

end
